theory Spec2Isabelle
  imports Complex_Main "HOL-Library.Word"
begin

unbundle bit_operations_syntax

section \<open>vmbuild: assembling a bootable disk image (src/vmbuild/vmbuild.cpp)\<close>

text \<open>
  The program is one function, \<open>main\<close>. It asks the operating system for the sizes of a
  boot sector and of a service binary, allocates a zeroed buffer of whole sectors, reads
  both files into it, inspects the ELF header of the service inside the buffer, patches
  two 4-byte fields of the boot sector and writes the buffer to a file.

  The embedding follows the statements of \<open>main\<close> in their order. Everything the
  operating system answers is an input (record \<open>env\<close>); every way the process can end is
  a value of \<open>status\<close>; reads through raw pointers are bounds-checked, an access outside
  the buffer ending the run as \<open>Undefined\<close>.

  Three things are taken from the platform: the machine is little-endian with a 32-bit
  \<open>int\<close> and a 64-bit \<open>intmax_t\<close>; \<open>size_t\<close> holds every size that \<open>intmax_t\<close> holds;
  and assertions are compiled in (\<open>NDEBUG\<close> is not defined).
\<close>

subsection \<open>Bytes, buffers and raw memory access\<close>

type_synonym byte = "8 word"

text \<open>\<open>p[i]\<close> for a \<open>char*\<close> into the buffer: defined only inside the buffer.\<close>

definition rd :: "byte list \<Rightarrow> nat \<Rightarrow> byte option" where
  "rd buf i = (if i < length buf then Some (buf ! i) else None)"

definition rd_bytes :: "byte list \<Rightarrow> nat \<Rightarrow> nat \<Rightarrow> byte list option" where
  "rd_bytes buf off n = (if off + n \<le> length buf then Some (take n (drop off buf)) else None)"

text \<open>
  Integers in memory are in the byte order of the machine that runs the tool; the
  historical target is IA-32, little-endian, with a 32-bit \<open>int\<close>.
\<close>

definition le_word :: "byte list \<Rightarrow> 'a::len word" where
  "le_word bs = foldr (\<lambda>b w. ucast b OR push_bit 8 w) bs 0"

definition le_bytes :: "nat \<Rightarrow> 'a::len word \<Rightarrow> byte list" where
  "le_bytes n w = map (\<lambda>k. ucast (drop_bit (8 * k) w)) [0..<n]"

text \<open>Reading a \<open>uint32_t\<close> or a \<open>uint64_t\<close> through a cast pointer.\<close>

definition rd32 :: "byte list \<Rightarrow> nat \<Rightarrow> 32 word option" where
  "rd32 buf off = map_option le_word (rd_bytes buf off 4)"

definition rd64 :: "byte list \<Rightarrow> nat \<Rightarrow> 64 word option" where
  "rd64 buf off = map_option le_word (rd_bytes buf off 8)"

text \<open>
  Copying bytes into the buffer at an offset. Every use below stays inside the buffer,
  whose length it keeps (lemmas \<open>length_load\<close> and \<open>length_patch\<close>).
\<close>

definition poke :: "byte list \<Rightarrow> nat \<Rightarrow> byte list \<Rightarrow> byte list" where
  "poke buf off bs = take off buf @ bs @ drop (off + length bs) buf"

definition wr32 :: "byte list \<Rightarrow> nat \<Rightarrow> 32 word \<Rightarrow> byte list" where
  "wr32 buf off w = poke buf off (le_bytes 4 w)"

subsection \<open>Constants of vmbuild.cpp\<close>

definition SECT_SIZE :: nat where "SECT_SIZE = 512"
definition SECT_SIZE_ERR :: int where "SECT_SIZE_ERR = 666"
definition DISK_SIZE_ERR :: int where "DISK_SIZE_ERR = 999"

text \<open>Location of special variables inside the bootloader.\<close>

definition bootvar_binary_size :: nat where "bootvar_binary_size = 4"
definition bootvar_binary_location :: nat where "bootvar_binary_location = 8"

text \<open>The largest \<open>intmax_t\<close> and the largest \<open>int\<close>.\<close>

definition INTMAX_MAX :: nat where "INTMAX_MAX = 2 ^ 63 - 1"
definition INT_MAX :: nat where "INT_MAX = 2 ^ 31 - 1"

subsection \<open>Constants and layouts of the included headers\<close>

text \<open>Modelled from the spec: the constants and the two layouts that \<open>main\<close> takes from
  the headers \<open>api/util/elf.h\<close> and \<open>api/boot/multiboot.h\<close>, which are missing. The
  specification gives the multiboot magic, 0x1BADB002, and the eight 32-bit fields of the
  multiboot header in their order (Section 3); it names the ELF magic sequence, the class
  byte and the entry-point field of the primary header (Section 4.2) without their
  values. These are the values of the ELF format, which \<open>elf.h\<close> repeats: the
  identification bytes 0x7f, 'E', 'L', 'F' at offsets 0 to 3, the class at offset 4 (1 for
  32-bit, 2 for 64-bit objects), and \<open>e_entry\<close> at offset 24, after 16 bytes of
  \<open>e_ident\<close>, two 16-bit fields and one 32-bit field.
\<close>

definition EI_MAG0 :: nat where "EI_MAG0 = 0"
definition EI_MAG1 :: nat where "EI_MAG1 = 1"
definition EI_MAG2 :: nat where "EI_MAG2 = 2"
definition EI_MAG3 :: nat where "EI_MAG3 = 3"
definition EI_CLASS :: nat where "EI_CLASS = 4"
definition ELFMAG0 :: byte where "ELFMAG0 = 0x7f"
definition ELFMAG1 :: byte where "ELFMAG1 = 0x45"
definition ELFMAG2 :: byte where "ELFMAG2 = 0x4c"
definition ELFMAG3 :: byte where "ELFMAG3 = 0x46"
definition ELFCLASS32 :: byte where "ELFCLASS32 = 1"
definition ELFCLASS64 :: byte where "ELFCLASS64 = 2"
definition e_entry_offset :: nat where "e_entry_offset = 24"
definition MULTIBOOT_HEADER_MAGIC :: "32 word" where "MULTIBOOT_HEADER_MAGIC = 0x1BADB002"

record multiboot_header =
  magic :: "32 word"
  flags :: "32 word"
  checksum :: "32 word"
  header_addr :: "32 word"
  load_addr :: "32 word"
  load_end_addr :: "32 word"
  bss_end_addr :: "32 word"
  entry_addr :: "32 word"

subsection \<open>The class Elf_binary\<close>

text \<open>
  A section header as \<open>main\<close> uses it: its name, and where the section's bytes lie
  inside the binary.
\<close>

record Shdr =
  sh_name :: string
  sh_offset :: nat
  sh_size :: nat

text \<open>
  The section-header table of a binary, names resolved. The parser is a parameter of
  the model: \<open>api/util/elf_binary.hpp\<close> is not among the sources and the specification
  does not describe the table's layout.
\<close>

type_synonym section_headers = "byte list \<Rightarrow> Shdr list"

text \<open>Modelled from the spec: \<open>Elf_binary::section_header\<close>, whose source
  (api/util/elf_binary.hpp) is missing. Section 4.2, step 4: "locate the section named
  .multiboot by name-string comparison; fails with MissingSection if absent". \<open>None\<close> is
  that failure.
\<close>

definition section_header :: "Shdr list \<Rightarrow> string \<Rightarrow> Shdr option" where
  "section_header shs name = find (\<lambda>sh. sh_name sh = name) shs"

text \<open>Modelled from the spec: \<open>Elf_binary<Elf32>::entry\<close>, whose source
  (api/util/elf_binary.hpp) is missing. Section 4.2, step 4: "extract the primary
  header's entry-point field"; Section 4.4, step 5: "for ELF32, the native 32-bit value".
  It is the 32-bit \<open>e_entry\<close> of the header at the start of the binary.
\<close>

definition entry :: "byte list \<Rightarrow> 32 word option" where
  "entry binary = rd32 binary e_entry_offset"

text \<open>Modelled from the spec: \<open>Elf_binary::section_data\<close>, whose source
  (api/util/elf_binary.hpp) is missing. Section 4.3: the input of the validation is "the
  .multiboot section bytes". The result is the span of the section's bytes inside the
  binary: where it starts (its \<open>data()\<close>, as an offset from the binary's first byte) and
  how long it is.
\<close>

definition section_data :: "Shdr \<Rightarrow> nat \<times> nat" where
  "section_data sh = (sh_offset sh, sh_size sh)"

subsection \<open>What the environment answers\<close>

text \<open>
  \<open>stat\<close> reports a size or fails with an \<open>errno\<close>. A stream delivers the bytes it can:
  \<open>file_boot\<close> and \<open>file_binary\<close> are the bytes the two \<open>ifstream\<close>s hold when they are
  read (none when the stream could not be opened), which need not be as many as \<open>stat\<close>
  reported. \<open>alloc_ok\<close>: the buffer can be allocated. \<open>fopen_ok\<close>: the image file can be
  opened for writing. \<open>fwrite_room\<close>: how many bytes the file takes before \<open>fwrite\<close> stops.
\<close>

record env =
  VERBOSE :: bool
  argv3 :: "string option"
  stat_boot :: "int + nat"
  file_boot :: "byte list"
  stat_binary :: "int + nat"
  file_binary :: "byte list"
  alloc_ok :: bool
  fopen_ok :: bool
  fwrite_room :: nat

text \<open>
  How the process ends: \<open>main\<close> returns a value; \<open>std::terminate\<close> is called (directly,
  or for an exception nobody catches); an \<open>assert\<close> fails; or the run has left the
  behaviour the language defines.
\<close>

datatype status = Return int | Terminate | Assert_fail | Undefined

text \<open>The end of a run: the status, and the image file (\<open>None\<close>: never opened).\<close>

record result =
  status :: status
  img :: "byte list option"

subsection \<open>The statements of main\<close>

text \<open>Lines 97 to 104: the third argument switches test mode and verbosity on.\<close>

definition test :: "env \<Rightarrow> bool" where
  "test e = (argv3 e = Some ''-test'')"

definition verb :: "env \<Rightarrow> bool" where
  "verb e = (VERBOSE e \<or> argv3 e = Some ''-test'' \<or> argv3 e = Some ''-v'')"

text \<open>Lines 129 to 135: the geometry of the image.\<close>

definition binary_sectors :: "nat \<Rightarrow> nat" where
  "binary_sectors st_size =
     (let sectors = st_size div SECT_SIZE
      in if st_size AND (SECT_SIZE - 1) \<noteq> 0 then sectors + 1 else sectors)"

definition img_size_sect :: "nat \<Rightarrow> nat" where
  "img_size_sect st_size = 1 + binary_sectors st_size"

definition img_size_bytes :: "nat \<Rightarrow> nat" where
  "img_size_bytes st_size = img_size_sect st_size * SECT_SIZE"

text \<open>\<open>stream.read(p, n)\<close>: copies the bytes the stream has, at most \<open>n\<close>, to \<open>p\<close>.\<close>

definition stream_read :: "byte list \<Rightarrow> nat \<Rightarrow> byte list \<Rightarrow> nat \<Rightarrow> byte list" where
  "stream_read disk off content n = poke disk off (take n content)"

text \<open>Lines 146 to 159: the zeroed buffer, and both files read into it.\<close>

definition load :: "env \<Rightarrow> nat \<Rightarrow> nat \<Rightarrow> byte list" where
  "load e boot_size binary_size =
     (let disk = replicate (img_size_bytes binary_size) 0;
          disk = stream_read disk 0 (file_boot e) boot_size;
          disk = stream_read disk SECT_SIZE (file_binary e) binary_size
      in disk)"

text \<open>
  Lines 163 to 166: the four comparisons, joined by \<open>&&\<close>: a byte is read only when
  the bytes before it matched.
\<close>

fun magic_check :: "byte list \<Rightarrow> (nat \<times> byte) list \<Rightarrow> bool option" where
  "magic_check binary_imgloc [] = Some True"
| "magic_check binary_imgloc ((i, m) # rest) =
     (case rd binary_imgloc i of
        None \<Rightarrow> None
      | Some b \<Rightarrow> if b = m then magic_check binary_imgloc rest else Some False)"

definition ELFMAG :: "(nat \<times> byte) list" where
  "ELFMAG = [(EI_MAG0, ELFMAG0), (EI_MAG1, ELFMAG1), (EI_MAG2, ELFMAG2), (EI_MAG3, ELFMAG3)]"

text \<open>
  Lines 170 to 199, the 32-bit branch. \<open>binary_imgloc\<close> is the buffer from the service's
  first byte on; the \<open>Elf_binary\<close> spans its first \<open>st_size\<close> bytes. The multiboot header
  is read through a pointer to the section's first byte: magic first, and the assertion
  on it; then flags and checksum, and the assertion on the sum; the other five fields
  only to print them.
\<close>

definition elf32 ::
    "section_headers \<Rightarrow> bool \<Rightarrow> nat \<Rightarrow> byte list \<Rightarrow> status + byte list" where
  "elf32 shdrs verbose st_size disk =
     (let binary_imgloc = drop SECT_SIZE disk;
          binary = take st_size binary_imgloc
      in case section_header (shdrs binary) ''.multiboot'' of
           None \<Rightarrow> Inl Terminate
         | Some sh_multiboot \<Rightarrow>
             (let multiboot = fst (section_data sh_multiboot)
              in case rd32 binary_imgloc multiboot of
                   None \<Rightarrow> Inl Undefined
                 | Some mb_magic \<Rightarrow>
                     if mb_magic \<noteq> MULTIBOOT_HEADER_MAGIC then Inl Assert_fail
                     else
                       (case (rd32 binary_imgloc (multiboot + 4),
                              rd32 binary_imgloc (multiboot + 8)) of
                          (Some mb_flags, Some mb_checksum) \<Rightarrow>
                            if mb_checksum + mb_flags + mb_magic \<noteq> 0 then Inl Assert_fail
                            else if verbose \<and> rd_bytes binary_imgloc (multiboot + 12) 20 = None
                            then Inl Undefined
                            else
                              (case entry binary_imgloc of
                                 None \<Rightarrow> Inl Undefined
                               | Some e \<Rightarrow>
                                   Inr (wr32 (wr32 disk bootvar_binary_size
                                                (word_of_nat (binary_sectors st_size)))
                                          bootvar_binary_location e))
                        | _ \<Rightarrow> Inl Undefined)))"

text \<open>Lines 204 to 210, the 64-bit branch: \<open>e_entry\<close> is read as 64 bits and cast.\<close>

definition elf64 :: "nat \<Rightarrow> byte list \<Rightarrow> status + byte list" where
  "elf64 st_size disk =
     (let binary_imgloc = drop SECT_SIZE disk
      in case rd64 binary_imgloc e_entry_offset of
           None \<Rightarrow> Inl Undefined
         | Some e \<Rightarrow>
             Inr (wr32 (wr32 disk bootvar_binary_size (word_of_nat (binary_sectors st_size)))
                    bootvar_binary_location (ucast e)))"

text \<open>Lines 163 to 222: only ELF binaries are accepted, of class 32 or 64.\<close>

definition inspect ::
    "section_headers \<Rightarrow> bool \<Rightarrow> nat \<Rightarrow> byte list \<Rightarrow> status + byte list" where
  "inspect shdrs verbose st_size disk =
     (let binary_imgloc = drop SECT_SIZE disk
      in case magic_check binary_imgloc ELFMAG of
           None \<Rightarrow> Inl Undefined
         | Some False \<Rightarrow> Inl Terminate
         | Some True \<Rightarrow>
             (case rd binary_imgloc EI_CLASS of
                None \<Rightarrow> Inl Undefined
              | Some c \<Rightarrow>
                  if c = ELFCLASS32 then elf32 shdrs verbose st_size disk
                  else if c = ELFCLASS64 then elf64 st_size disk
                  else Inl Terminate))"

text \<open>
  Lines 224 to 229: the loop of the test mode, \<open>i\<close> counting from 0 to \<open>n\<close>. The counter
  is an \<open>int\<close>: the loop is defined only while \<open>512 + i\<close> and \<open>i + 1\<close> fit one.
\<close>

function testdata :: "nat \<Rightarrow> nat \<Rightarrow> byte list \<Rightarrow> byte list" where
  "testdata i n disk =
     (if i < n then testdata (i + 1) n (disk[512 + i := word_of_nat (i mod 256)]) else disk)"
  by pat_completeness auto
termination
  by (relation "measure (\<lambda>(i, n, disk). n - i)") auto

definition test_mode :: "bool \<Rightarrow> nat \<Rightarrow> byte list \<Rightarrow> status + byte list" where
  "test_mode t size_bytes disk =
     (if t then
        (if 0 < size_bytes - 512 \<and> INT_MAX < 512 + (size_bytes - 512 - 1) then Inl Undefined
         else Inr (testdata 0 (size_bytes - 512) disk))
      else Inr disk)"

text \<open>
  Lines 129 to 229: from the two sizes to the finished buffer. The sizes are
  \<open>intmax_t\<close>, whose overflow is undefined; the assertion of line 136; a \<open>vector\<close> that
  cannot be allocated throws.
\<close>

definition assemble :: "section_headers \<Rightarrow> env \<Rightarrow> nat \<Rightarrow> nat \<Rightarrow> status + byte list" where
  "assemble shdrs e boot_size binary_size =
     (if INTMAX_MAX < img_size_bytes binary_size then Inl Undefined
      else if img_size_bytes binary_size AND (SECT_SIZE - 1) \<noteq> 0 then Inl Assert_fail
      else if \<not> alloc_ok e then Inl Terminate
      else
        (case inspect shdrs (verb e) binary_size (load e boot_size binary_size) of
           Inl s \<Rightarrow> Inl s
         | Inr disk \<Rightarrow> test_mode (test e) (img_size_bytes binary_size) disk))"

text \<open>
  Lines 232 to 238: the image is opened and written; neither result is examined, and
  \<open>main\<close> ends without a \<open>return\<close>, which is \<open>return 0\<close>. \<open>fwrite\<close> on the null pointer
  of a failed \<open>fopen\<close> is undefined.
\<close>

definition write_image :: "env \<Rightarrow> byte list \<Rightarrow> result" where
  "write_image e disk =
     (if \<not> fopen_ok e then \<lparr>status = Undefined, img = None\<rparr>
      else
        (let wrote = min (fwrite_room e) (length disk)
         in \<lparr>status = Return 0, img = Some (take wrote disk)\<rparr>))"

text \<open>
  Lines 106 to 238. The two paths on the command line are given (with fewer arguments
  the program prints its usage and exits before it touches a file).
\<close>

definition main :: "section_headers \<Rightarrow> env \<Rightarrow> result" where
  "main shdrs e =
     (case stat_boot e of
        Inl errno \<Rightarrow> \<lparr>status = Return errno, img = None\<rparr>
      | Inr boot_size \<Rightarrow>
          if boot_size \<noteq> SECT_SIZE then \<lparr>status = Return SECT_SIZE_ERR, img = None\<rparr>
          else
            (case stat_binary e of
               Inl errno \<Rightarrow> \<lparr>status = Return errno, img = None\<rparr>
             | Inr binary_size \<Rightarrow>
                 (case assemble shdrs e boot_size binary_size of
                    Inl s \<Rightarrow> \<lparr>status = s, img = None\<rparr>
                  | Inr disk \<Rightarrow> write_image e disk)))"

subsection \<open>Notions the properties are stated with\<close>

text \<open>A read that delivers fewer bytes leaves the rest of its range as it was: zero.\<close>

definition pad :: "nat \<Rightarrow> byte list \<Rightarrow> byte list" where
  "pad n bs = bs @ replicate (n - length bs) 0"

text \<open>
  \<open>read_bytes\<close> of lines 152 and 159: the number of bytes a read of \<open>n\<close> bytes
  delivered (\<open>gcount\<close>). The program prints it and does nothing else with it.
\<close>

definition gcount :: "byte list \<Rightarrow> nat \<Rightarrow> nat" where
  "gcount content n = length (take n content)"

text \<open>The memory at \<open>binary_imgloc\<close> once both files are loaded.\<close>

definition service_image :: "env \<Rightarrow> nat \<Rightarrow> byte list" where
  "service_image e st_size = drop SECT_SIZE (load e SECT_SIZE st_size)"

text \<open>The two stores of lines 198 and 199 (and of lines 209 and 210).\<close>

definition patch :: "byte list \<Rightarrow> nat \<Rightarrow> 32 word \<Rightarrow> byte list" where
  "patch disk st_size w =
     wr32 (wr32 disk bootvar_binary_size (word_of_nat (binary_sectors st_size)))
       bootvar_binary_location w"

text \<open>
  The eight fields of a multiboot header that lies at offset \<open>p\<close>, when all of its 32
  bytes are inside the buffer.
\<close>

definition multiboot_at :: "byte list \<Rightarrow> nat \<Rightarrow> multiboot_header option" where
  "multiboot_at mem p =
     (case rd_bytes mem p 32 of
        None \<Rightarrow> None
      | Some bs \<Rightarrow>
          Some \<lparr>magic = le_word (take 4 bs),
                flags = le_word (take 4 (drop 4 bs)),
                checksum = le_word (take 4 (drop 8 bs)),
                header_addr = le_word (take 4 (drop 12 bs)),
                load_addr = le_word (take 4 (drop 16 bs)),
                load_end_addr = le_word (take 4 (drop 20 bs)),
                bss_end_addr = le_word (take 4 (drop 24 bs)),
                entry_addr = le_word (take 4 (drop 28 bs))\<rparr>)"

text \<open>
  The invariant of the multiboot header as the specification words it: the magic is
  0x1BADB002 and magic + flags + checksum is 0 modulo \<open>2 ^ 32\<close>.
\<close>

definition multiboot_valid :: "multiboot_header \<Rightarrow> bool" where
  "multiboot_valid h =
     (unat (magic h) = 0x1BADB002 \<and>
      (unat (magic h) + unat (flags h) + unat (checksum h)) mod 2 ^ 32 = 0)"

text \<open>
  The four ways a service fails validation, read off the loaded service \<open>m\<close>. Each
  speaks of bytes that are inside the buffer.
\<close>

definition elf_ident :: "byte list \<Rightarrow> bool option" where
  "elf_ident m =
     map_option (\<lambda>bs. bs = [ELFMAG0, ELFMAG1, ELFMAG2, ELFMAG3]) (rd_bytes m EI_MAG0 4)"

definition not_executable :: "byte list \<Rightarrow> bool" where
  "not_executable m = (elf_ident m = Some False)"

definition elf_class :: "byte list \<Rightarrow> byte option" where
  "elf_class m = (if elf_ident m = Some True then rd m EI_CLASS else None)"

definition unsupported_class :: "byte list \<Rightarrow> bool" where
  "unsupported_class m =
     (case elf_class m of None \<Rightarrow> False | Some c \<Rightarrow> c \<noteq> ELFCLASS32 \<and> c \<noteq> ELFCLASS64)"

definition multiboot_section :: "section_headers \<Rightarrow> nat \<Rightarrow> byte list \<Rightarrow> Shdr option" where
  "multiboot_section shdrs st_size m = section_header (shdrs (take st_size m)) ''.multiboot''"

definition missing_section :: "section_headers \<Rightarrow> nat \<Rightarrow> byte list \<Rightarrow> bool" where
  "missing_section shdrs st_size m =
     (elf_class m = Some ELFCLASS32 \<and> multiboot_section shdrs st_size m = None)"

definition bad_multiboot_header :: "section_headers \<Rightarrow> nat \<Rightarrow> byte list \<Rightarrow> bool" where
  "bad_multiboot_header shdrs st_size m =
     (elf_class m = Some ELFCLASS32 \<and>
      (case multiboot_section shdrs st_size m of
         None \<Rightarrow> False
       | Some sh \<Rightarrow>
           (case multiboot_at m (sh_offset sh) of
              None \<Rightarrow> False
            | Some h \<Rightarrow> \<not> multiboot_valid h)))"

definition validation_fails :: "section_headers \<Rightarrow> nat \<Rightarrow> byte list \<Rightarrow> bool" where
  "validation_fails shdrs st_size m =
     (not_executable m \<or> unsupported_class m \<or> missing_section shdrs st_size m \<or>
      bad_multiboot_header shdrs st_size m)"

subsection \<open>Example inputs\<close>

text \<open>A boot sector of 512 bytes, ending in the boot signature.\<close>

definition boot_sector :: "byte list" where
  "boot_sector = replicate 510 0x90 @ [0x55, 0xAA]"

text \<open>
  The first 32 bytes of a 64-bit ELF executable whose entry point, 0x100200000, lies
  above 4 GiB.
\<close>

definition service64 :: "byte list" where
  "service64 =
     [0x7f, 0x45, 0x4c, 0x46, 2, 1, 1, 0] @ replicate 8 0 @
     [2, 0, 0x3e, 0, 1, 0, 0, 0] @ [0, 0, 0x20, 0, 1, 0, 0, 0]"

text \<open>
  Scenario 1 of the specification: a 32-bit ELF header of 52 bytes with entry point
  0x00100000, followed by a multiboot header with flags 0 and checksum
  \<open>- 0x1BADB002 mod 2 ^ 32 = 0xE4524FFE\<close>. The second service has a multiboot header
  whose checksum is 0.
\<close>

definition elf32_header :: "byte list" where
  "elf32_header =
     [0x7f, 0x45, 0x4c, 0x46, 1, 1, 1, 0] @ replicate 8 0 @
     [2, 0, 3, 0, 1, 0, 0, 0] @ [0, 0, 0x10, 0] @ replicate 24 0"


definition service32_bad :: "byte list" where
  "service32_bad =
     elf32_header @ [0x02, 0xb0, 0xad, 0x1b, 0, 0, 0, 0, 0, 0, 0, 0] @ replicate 20 0"

definition sections32 :: section_headers where
  "sections32 binary =
     [\<lparr>sh_name = ''.text'', sh_offset = 84, sh_size = 0\<rparr>,
      \<lparr>sh_name = ''.multiboot'', sh_offset = 52, sh_size = 32\<rparr>]"

definition no_sections :: section_headers where
  "no_sections binary = []"

text \<open>
  Environments: an empty service; the 64-bit service; the same in test mode, with a boot
  sector that cannot be read, with a device that takes no byte, and with one that takes
  100 bytes; a service of 2 TiB;
  the two 32-bit services; a service that is no ELF binary; a boot sector of 511 bytes.
\<close>

definition env0 :: env where
  "env0 = \<lparr>VERBOSE = False, argv3 = None, stat_boot = Inr 512, file_boot = boot_sector,
            stat_binary = Inr 0, file_binary = [], alloc_ok = True, fopen_ok = True,
            fwrite_room = 4096\<rparr>"

definition env64 :: env where
  "env64 = env0\<lparr>stat_binary := Inr 32, file_binary := service64\<rparr>"

definition env64_test :: env where
  "env64_test = env64\<lparr>argv3 := Some ''-test''\<rparr>"

definition env64_unread :: env where
  "env64_unread = env64\<lparr>file_boot := []\<rparr>"

definition env64_full :: env where
  "env64_full = env64\<lparr>fwrite_room := 0\<rparr>"

definition env64_short :: env where
  "env64_short = env64\<lparr>fwrite_room := 100\<rparr>"

definition env64_huge :: env where
  "env64_huge =
     env0\<lparr>stat_binary := Inr 2199023255552,
          file_binary := service64 @ replicate 2199023255520 0,
          fwrite_room := 2199023256064\<rparr>"


definition env32_bad :: env where
  "env32_bad = env0\<lparr>stat_binary := Inr 84, file_binary := service32_bad\<rparr>"

definition env_text :: env where
  "env_text = env0\<lparr>stat_binary := Inr 5, file_binary := [0x68, 0x65, 0x6c, 0x6c, 0x6f]\<rparr>"

definition env_boot511 :: env where
  "env_boot511 = env0\<lparr>stat_boot := Inr 511, file_boot := replicate 511 0x90\<rparr>"

section \<open>Properties\<close>

subsection \<open>Arithmetic of the geometry\<close>

lemma and_511: "(n::nat) AND 511 = n mod 512"
proof -
  have m: "(511::nat) = mask 9" by (simp add: mask_eq_exp_minus_1)
  have "n AND mask 9 = n mod 2 ^ 9"
    by (simp only: take_bit_eq_mod flip: take_bit_eq_mask)
  then show ?thesis unfolding m[symmetric] by simp
qed

lemma round_up_ge: "S \<le> 512 * ((S + 511) div 512)" for S :: nat
proof -
  have r: "(S + 511) mod 512 < 512" by simp
  have "512 * ((S + 511) div 512) + (S + 511) mod 512 = S + 511" by simp
  with r show ?thesis by linarith
qed

lemma round_up_lt: "512 * ((S + 511) div 512) < S + 512" for S :: nat
proof -
  have "512 * ((S + 511) div 512) + (S + 511) mod 512 = S + 511" by simp
  then show ?thesis by linarith
qed

lemma binary_sectors_div: "binary_sectors S = (S + 511) div 512"
proof -
  define q where "q = S div 512"
  define r where "r = S mod 512"
  have S: "S = q * 512 + r" and r: "r < 512" by (simp_all add: q_def r_def)
  have "(S + 511) div 512 = q + (r + 511) div 512"
    unfolding S by (simp add: add.assoc)
  moreover have "(r + 511) div 512 = (if r = 0 then 0 else 1)"
  proof (cases "r = 0")
    case True
    then show ?thesis by simp
  next
    case False
    with r have "1 * 512 \<le> r + 511" "r + 511 < Suc 1 * 512" by simp_all
    then have "(r + 511) div 512 = 1" by (intro div_nat_eqI) simp_all
    with False show ?thesis by simp
  qed
  ultimately show ?thesis
    by (simp add: binary_sectors_def SECT_SIZE_def and_511 q_def r_def)
qed

lemma binary_sectors_ge: "S \<le> 512 * binary_sectors S"
  unfolding binary_sectors_div by (rule round_up_ge)

lemma binary_sectors_lt: "512 * binary_sectors S < S + 512"
  unfolding binary_sectors_div by (rule round_up_lt)

lemma binary_sectors_ceiling: "int (binary_sectors S) = \<lceil>real S / 512\<rceil>"
proof -
  define k where "k = binary_sectors S"
  have "real S \<le> real (512 * k)"
    unfolding k_def using binary_sectors_ge[of S] by (simp only: of_nat_le_iff)
  then have up: "real S / 512 \<le> of_int (int k)" by simp
  have "real (512 * k) < real (S + 512)"
    unfolding k_def using binary_sectors_lt[of S] by (simp only: of_nat_less_iff)
  then have lo: "of_int (int k) - 1 < real S / 512" by simp
  from lo up have "\<lceil>real S / 512\<rceil> = int k" by (rule ceiling_unique)
  then show ?thesis by (simp add: k_def)
qed


lemma binary_sectors_pos: "0 < S \<Longrightarrow> 0 < binary_sectors S"
  using binary_sectors_ge[of S] by (cases "binary_sectors S") auto

lemma binary_sectors_0: "binary_sectors 0 = 0"
  by (simp add: binary_sectors_div)

lemma img_size_bytes_eq: "img_size_bytes S = 512 + 512 * binary_sectors S"
  by (simp add: img_size_bytes_def img_size_sect_def SECT_SIZE_def)

lemma img_size_bytes_aligned: "img_size_bytes S AND (SECT_SIZE - 1) = 0"
  by (simp add: SECT_SIZE_def and_511 img_size_bytes_eq)

subsection \<open>The buffer after loading\<close>

lemma length_pad: "length bs \<le> n \<Longrightarrow> length (pad n bs) = n"
  by (simp add: pad_def)

lemma nth_pad: "i < length bs \<Longrightarrow> pad n bs ! i = bs ! i"
  by (simp add: pad_def nth_append)

lemma nth_pad_zero: "length bs \<le> i \<Longrightarrow> i < n \<Longrightarrow> pad n bs ! i = 0"
  by (simp add: pad_def nth_append)

lemma poke_zeros:
  assumes "length A \<le> m"
  shows "poke (replicate (m + n) 0) 0 A = pad m A @ replicate n 0"
proof -
  have "m + n - length A = (m - length A) + n" using assms by simp
  then show ?thesis
    by (simp add: poke_def pad_def replicate_add)
qed

lemma poke_after:
  assumes "length X = m" "length B \<le> n"
  shows "poke (X @ replicate n 0) m B = X @ pad n B"
  using assms by (simp add: poke_def pad_def)

lemma load_eq:
  "load e 512 S =
     pad 512 (take 512 (file_boot e)) @ pad (512 * binary_sectors S) (take S (file_binary e))"
proof -
  define A where "A = take 512 (file_boot e)"
  define B where "B = take S (file_binary e)"
  define k where "k = binary_sectors S"
  have a: "length A \<le> 512" by (simp add: A_def)
  have b: "length B \<le> 512 * k" using binary_sectors_ge[of S] by (simp add: B_def k_def)
  have la: "length (pad 512 A) = 512" using a by (simp add: pad_def)
  have n: "img_size_bytes S = 512 + 512 * k"
    by (simp add: img_size_bytes_eq k_def)
  have "load e 512 S = poke (poke (replicate (512 + 512 * k) 0) 0 A) 512 B"
    by (simp add: load_def stream_read_def n A_def B_def SECT_SIZE_def)
  also have "\<dots> = poke (pad 512 A @ replicate (512 * k) 0) 512 B"
    by (simp only: poke_zeros[OF a])
  also have "\<dots> = pad 512 A @ pad (512 * k) B"
    by (rule poke_after[OF la b])
  finally show ?thesis by (simp add: A_def B_def k_def)
qed

lemma length_read: "length (take S (file_binary e)) \<le> 512 * binary_sectors S"
  using binary_sectors_ge[of S] by simp

lemma length_pad_read [simp]:
  "length (pad (512 * binary_sectors S) (take S (file_binary e))) = 512 * binary_sectors S"
  by (rule length_pad[OF length_read])

lemma length_pad_boot [simp]: "length (pad 512 (take 512 xs)) = 512"
  by (rule length_pad) simp

lemma length_load: "length (load e 512 S) = img_size_bytes S"
  by (simp add: load_eq img_size_bytes_eq)

lemma service_image_eq:
  "service_image e S = pad (512 * binary_sectors S) (take S (file_binary e))"
  by (simp add: service_image_def SECT_SIZE_def load_eq)

lemma length_service_image: "length (service_image e S) = 512 * binary_sectors S"
  by (simp add: service_image_eq)

lemma boot_sector_loaded: "take 512 (load e 512 S) = pad 512 (take 512 (file_boot e))"
  by (simp add: load_eq)

lemma load_split: "load e 512 S = pad 512 (take 512 (file_boot e)) @ service_image e S"
  by (simp add: load_eq service_image_eq)



subsection \<open>The two patched fields\<close>

lemma length_le_bytes [simp]: "length (le_bytes n w) = n"
  by (simp add: le_bytes_def)

lemma le_word_le_bytes32: "le_word (le_bytes 4 w) = (w :: 32 word)"
proof -
  have u: "[0..<4] = [0, 1, 2, 3]" by (simp add: upt_rec)
  show ?thesis
    unfolding le_word_def le_bytes_def u
    apply simp
    apply (rule bit_word_eqI)
    apply (simp add: bit_simps)
    subgoal for n
      by (cases "n < 8"; cases "n < 16"; cases "n < 24") (auto simp: not_less)
    done
qed

lemma wr32_eq: "wr32 buf off w = take off buf @ le_bytes 4 w @ drop (off + 4) buf"
  by (simp add: wr32_def poke_def)

lemma patch_eq:
  assumes "12 \<le> length disk"
  shows "patch disk S w =
           take 4 disk @ le_bytes 4 (word_of_nat (binary_sectors S) :: 32 word) @
           le_bytes 4 w @ drop 12 disk"
  using assms
  by (simp add: patch_def wr32_eq bootvar_binary_size_def bootvar_binary_location_def)

lemma length_patch: "12 \<le> length disk \<Longrightarrow> length (patch disk S w) = length disk"
  by (simp add: patch_eq)

lemma nth_patch:
  assumes "12 \<le> length disk" "i < 4 \<or> 12 \<le> i" "i < length disk"
  shows "patch disk S w ! i = disk ! i"
proof (cases "i < 4")
  case True
  then show ?thesis using assms by (simp add: patch_eq nth_append)
next
  case False
  with assms have i: "12 \<le> i" by simp
  define P where "P = take 4 disk @ le_bytes 4 (word_of_nat (binary_sectors S) :: 32 word) @ le_bytes 4 w"
  have P: "length P = 12" using assms by (simp add: P_def)
  have "patch disk S w = P @ drop 12 disk"
    using assms by (simp add: patch_eq P_def)
  then have "patch disk S w ! i = drop 12 disk ! (i - 12)"
    using i P by (simp add: nth_append)
  also have "\<dots> = disk ! i" using i assms by simp
  finally show ?thesis .
qed

lemma rd32_patch_size:
  assumes "12 \<le> length disk"
  shows "rd32 (patch disk S w) 4 = Some (word_of_nat (binary_sectors S))"
  using assms by (simp add: rd32_def rd_bytes_def patch_eq le_word_le_bytes32)


lemma drop_patch: "12 \<le> length disk \<Longrightarrow> 12 \<le> n \<Longrightarrow> drop n (patch disk S w) = drop n disk"
  by (simp add: patch_eq)

lemma rd32_take: "off + 4 \<le> n \<Longrightarrow> rd32 (take n buf) off = rd32 buf off"
  by (auto simp: rd32_def rd_bytes_def take_drop min_def)



subsection \<open>The test mode\<close>

declare testdata.simps [simp del]

lemma length_testdata [simp]: "length (testdata i n disk) = length disk"
  by (induction i n disk rule: testdata.induct) (subst testdata.simps, simp)

lemma take_testdata: "take 512 (testdata i n disk) = take 512 disk"
proof (induction i n disk rule: testdata.induct)
  case (1 i n disk)
  show ?case
  proof (cases "i < n")
    case True
    have "take 512 (testdata i n disk) =
            take 512 (testdata (i + 1) n (disk[512 + i := word_of_nat (i mod 256)]))"
      using True by (subst testdata.simps) simp
    also have "\<dots> = take 512 (disk[512 + i := word_of_nat (i mod 256)])"
      using True by (rule "1.IH")
    also have "\<dots> = take 512 disk" by simp
    finally show ?thesis .
  next
    case False
    then show ?thesis by (subst testdata.simps) simp
  qed
qed

lemma nth_testdata_boot: "j < 512 \<Longrightarrow> testdata i n disk ! j = disk ! j"
proof -
  assume j: "j < 512"
  have "testdata i n disk ! j = take 512 (testdata i n disk) ! j" using j by simp
  also have "\<dots> = take 512 disk ! j" by (simp only: take_testdata)
  also have "\<dots> = disk ! j" using j by simp
  finally show ?thesis .
qed

lemma rd32_testdata:
  assumes "off + 4 \<le> 512"
  shows "rd32 (testdata i n disk) off = rd32 disk off"
proof -
  have "take 4 (drop off (testdata i n disk)) = take 4 (drop off (take 512 (testdata i n disk)))"
    using assms by (simp add: drop_take)
  also have "\<dots> = take 4 (drop off (take 512 disk))" by (simp only: take_testdata)
  also have "\<dots> = take 4 (drop off disk)" using assms by (simp add: drop_take)
  finally show ?thesis by (simp add: rd32_def rd_bytes_def)
qed

lemma test_mode_cases:
  "test_mode t n disk = Inl Undefined \<or> test_mode t n disk = Inr disk \<and> \<not> t \<or>
   test_mode t n disk = Inr (testdata 0 (n - 512) disk) \<and> t"
  by (simp add: test_mode_def)

lemma test_mode_Inr:
  assumes "test_mode t n disk = Inr d"
  shows "length d = length disk \<and> take 512 d = take 512 disk"
  using assms by (auto simp: test_mode_def take_testdata split: if_splits)

subsection \<open>The identification bytes\<close>

lemma list4:
  assumes "4 \<le> length m"
  obtains a b c d r where "m = a # b # c # d # r"
proof -
  from assms obtain a m1 where 1: "m = a # m1" "3 \<le> length m1" by (cases m) auto
  then obtain b m2 where 2: "m1 = b # m2" "2 \<le> length m2" by (cases m1) auto
  then obtain c m3 where 3: "m2 = c # m3" "1 \<le> length m3" by (cases m2) auto
  then obtain d r where 4: "m3 = d # r" by (cases m3) auto
  from 1 2 3 4 that show thesis by blast
qed

lemma magic_check_ident:
  assumes "4 \<le> length m"
  shows "magic_check m ELFMAG = elf_ident m"
proof -
  from assms obtain a b c d r where m: "m = a # b # c # d # r" by (rule list4)
  show ?thesis
    unfolding m
    by (simp add: ELFMAG_def elf_ident_def rd_def rd_bytes_def EI_MAG0_def EI_MAG1_def EI_MAG2_def
        EI_MAG3_def)
qed

lemma magic_check_empty: "magic_check [] ELFMAG = None"
  by (simp add: ELFMAG_def rd_def)

lemma elf_ident_Some: "elf_ident m = Some b \<Longrightarrow> 4 \<le> length m"
  by (auto simp: elf_ident_def rd_bytes_def EI_MAG0_def split: if_splits)

lemma elf_class_Some:
  assumes "elf_class m = Some c"
  shows "magic_check m ELFMAG = Some True \<and> rd m EI_CLASS = Some c"
proof -
  from assms have i: "elf_ident m = Some True" and c: "rd m EI_CLASS = Some c"
    by (auto simp: elf_class_def split: if_splits)
  from i have "4 \<le> length m" by (rule elf_ident_Some)
  then have "magic_check m ELFMAG = elf_ident m" by (rule magic_check_ident)
  with i c show ?thesis by simp
qed



subsection \<open>What the inspection answers\<close>

lemma inspect_not_executable:
  assumes "not_executable (drop SECT_SIZE disk)"
  shows "inspect shdrs v S disk = Inl Terminate"
proof -
  from assms have i: "elf_ident (drop SECT_SIZE disk) = Some False"
    by (simp add: not_executable_def)
  then have "4 \<le> length (drop SECT_SIZE disk)" by (rule elf_ident_Some)
  then have "magic_check (drop SECT_SIZE disk) ELFMAG = Some False"
    using i by (simp only: magic_check_ident)
  then show ?thesis by (simp add: inspect_def)
qed

lemma inspect_class:
  assumes "elf_class (drop SECT_SIZE disk) = Some c"
  shows "inspect shdrs v S disk =
           (if c = ELFCLASS32 then elf32 shdrs v S disk
            else if c = ELFCLASS64 then elf64 S disk else Inl Terminate)"
  using elf_class_Some[OF assms] by (simp add: inspect_def)

lemma inspect_unsupported_class:
  assumes "unsupported_class (drop SECT_SIZE disk)"
  shows "inspect shdrs v S disk = Inl Terminate"
proof -
  from assms obtain c where "elf_class (drop SECT_SIZE disk) = Some c"
    "c \<noteq> ELFCLASS32" "c \<noteq> ELFCLASS64"
    by (auto simp: unsupported_class_def split: option.splits)
  then show ?thesis by (simp add: inspect_class)
qed

lemma inspect_Inr:
  assumes "inspect shdrs v S disk = Inr d"
  shows "elf_class (drop SECT_SIZE disk) = Some ELFCLASS32 \<and> elf32 shdrs v S disk = Inr d \<or>
         elf_class (drop SECT_SIZE disk) = Some ELFCLASS64 \<and> elf64 S disk = Inr d"
proof -
  let ?m = "drop SECT_SIZE disk"
  from assms have mc: "magic_check ?m ELFMAG = Some True"
    by (auto simp: inspect_def Let_def split: option.splits bool.splits)
  have len: "4 \<le> length ?m"
  proof (rule ccontr)
    assume "\<not> 4 \<le> length ?m"
    then have "rd ?m 3 = None" by (simp add: rd_def)
    then have "magic_check ?m ELFMAG \<noteq> Some True"
      by (auto simp: ELFMAG_def EI_MAG0_def EI_MAG1_def EI_MAG2_def EI_MAG3_def
          split: option.splits)
    with mc show False by simp
  qed
  then have i: "elf_ident ?m = Some True" using mc by (simp only: magic_check_ident)
  from assms mc obtain c where c: "rd ?m EI_CLASS = Some c"
    by (auto simp: inspect_def Let_def split: option.splits)
  with i have ec: "elf_class ?m = Some c" by (simp add: elf_class_def)
  from assms show ?thesis
    unfolding inspect_class[OF ec] using ec by (auto split: if_splits)
qed

subsection \<open>The multiboot header\<close>

lemma multiboot_at_fields:
  assumes "multiboot_at m p = Some h"
  shows "rd32 m p = Some (magic h)" "rd32 m (p + 4) = Some (flags h)"
    "rd32 m (p + 8) = Some (checksum h)" "rd_bytes m (p + 12) 20 \<noteq> None"
proof -
  from assms have len: "p + 32 \<le> length m"
    by (auto simp: multiboot_at_def rd_bytes_def split: if_splits)
  from assms have h: "h = \<lparr>magic = le_word (take 4 (take 32 (drop p m))),
                flags = le_word (take 4 (drop 4 (take 32 (drop p m)))),
                checksum = le_word (take 4 (drop 8 (take 32 (drop p m)))),
                header_addr = le_word (take 4 (drop 12 (take 32 (drop p m)))),
                load_addr = le_word (take 4 (drop 16 (take 32 (drop p m)))),
                load_end_addr = le_word (take 4 (drop 20 (take 32 (drop p m)))),
                bss_end_addr = le_word (take 4 (drop 24 (take 32 (drop p m)))),
                entry_addr = le_word (take 4 (drop 28 (take 32 (drop p m))))\<rparr>"
    using len by (simp add: multiboot_at_def rd_bytes_def)
  show "rd32 m p = Some (magic h)" using len by (simp add: h rd32_def rd_bytes_def)
  show "rd32 m (p + 4) = Some (flags h)"
    using len by (simp add: h rd32_def rd_bytes_def drop_take add.commute)
  show "rd32 m (p + 8) = Some (checksum h)"
    using len by (simp add: h rd32_def rd_bytes_def drop_take add.commute)
  show "rd_bytes m (p + 12) 20 \<noteq> None" using len by (simp add: rd_bytes_def)
qed

lemma multiboot_valid_word:
  "multiboot_valid h \<longleftrightarrow>
     magic h = MULTIBOOT_HEADER_MAGIC \<and> checksum h + flags h + magic h = 0"
proof -
  have "unat MULTIBOOT_HEADER_MAGIC = 0x1BADB002"
    by (simp add: MULTIBOOT_HEADER_MAGIC_def)
  then have m: "magic h = MULTIBOOT_HEADER_MAGIC \<longleftrightarrow> unat (magic h) = 0x1BADB002"
    using word_unat_eq_iff[of "magic h" MULTIBOOT_HEADER_MAGIC] by simp
  have "unat (checksum h + flags h + magic h) =
          (unat (checksum h) + unat (flags h) + unat (magic h)) mod 2 ^ 32"
    by (simp add: unat_word_ariths(1) mod_add_left_eq)
  also have "unat (checksum h) + unat (flags h) + unat (magic h) =
          unat (magic h) + unat (flags h) + unat (checksum h)" by simp
  finally have "unat (checksum h + flags h + magic h) =
          (unat (magic h) + unat (flags h) + unat (checksum h)) mod 2 ^ 32" .
  moreover have "checksum h + flags h + magic h = 0 \<longleftrightarrow>
          unat (checksum h + flags h + magic h) = 0"
    using unsigned_eq_0_iff[of "checksum h + flags h + magic h", where ?'a = nat] by simp
  ultimately have s: "checksum h + flags h + magic h = 0 \<longleftrightarrow>
          (unat (magic h) + unat (flags h) + unat (checksum h)) mod 2 ^ 32 = 0"
    by simp
  show ?thesis unfolding multiboot_valid_def m s ..
qed

lemma elf32_missing:
  assumes "multiboot_section shdrs S (drop SECT_SIZE disk) = None"
  shows "elf32 shdrs v S disk = Inl Terminate"
  using assms by (simp add: elf32_def multiboot_section_def)

lemma elf32_header:
  assumes "multiboot_section shdrs S (drop SECT_SIZE disk) = Some sh"
    and "multiboot_at (drop SECT_SIZE disk) (sh_offset sh) = Some h"
  shows "elf32 shdrs v S disk =
           (if multiboot_valid h
            then (case entry (drop SECT_SIZE disk) of
                    None \<Rightarrow> Inl Undefined
                  | Some w \<Rightarrow> Inr (patch disk S w))
            else Inl Assert_fail)"
  using assms(1) multiboot_at_fields[OF assms(2)]
  by (auto simp: elf32_def Let_def section_data_def multiboot_section_def multiboot_valid_word
      patch_def split: option.splits)

lemma elf32_Inr:
  assumes "elf32 shdrs v S disk = Inr d"
  shows "\<exists>w. entry (drop SECT_SIZE disk) = Some w \<and> d = patch disk S w"
  using assms
  by (auto simp: elf32_def patch_def Let_def split: option.splits if_splits prod.splits)

lemma elf64_eq:
  "elf64 S disk =
     (case rd64 (drop SECT_SIZE disk) e_entry_offset of
        None \<Rightarrow> Inl Undefined
      | Some e \<Rightarrow> Inr (patch disk S (ucast e)))"
  by (simp add: elf64_def patch_def split: option.splits)

lemma inspect_patch:
  assumes "inspect shdrs v S disk = Inr d"
  shows "\<exists>w. d = patch disk S w"
  using inspect_Inr[OF assms] elf32_Inr[of shdrs v S disk d]
  by (auto simp: elf64_eq split: option.splits)



subsection \<open>From the sizes to the image file\<close>

lemma load_ge_512: "512 \<le> length (load e 512 S)"
  by (simp add: length_load img_size_bytes_eq)

lemma drop_load: "drop SECT_SIZE (load e 512 S) = service_image e S"
  by (simp add: service_image_def SECT_SIZE_def)

lemma assemble_Inr:
  assumes "assemble shdrs e 512 S = Inr disk"
  shows "\<exists>w. inspect shdrs (verb e) S (load e 512 S) = Inr (patch (load e 512 S) S w) \<and>
             test_mode (test e) (img_size_bytes S) (patch (load e 512 S) S w) = Inr disk"
proof -
  from assms obtain d where d: "inspect shdrs (verb e) S (load e 512 S) = Inr d"
    and t: "test_mode (test e) (img_size_bytes S) d = Inr disk"
    by (auto simp: assemble_def split: if_splits sum.splits)
  from inspect_patch[OF d] obtain w where "d = patch (load e 512 S) S w" ..
  with d t show ?thesis by auto
qed

lemma assemble_shape:
  assumes "assemble shdrs e 512 S = Inr disk"
  shows "\<exists>w. length disk = img_size_bytes S \<and> take 512 disk = take 512 (patch (load e 512 S) S w)"
proof -
  from assemble_Inr[OF assms] obtain w where
    t: "test_mode (test e) (img_size_bytes S) (patch (load e 512 S) S w) = Inr disk" by blast
  have "12 \<le> length (load e 512 S)" using load_ge_512[of e S] by simp
  then have "length (patch (load e 512 S) S w) = img_size_bytes S"
    by (simp add: length_patch length_load)
  with test_mode_Inr[OF t] show ?thesis by auto
qed

lemma length_assemble:
  assumes "assemble shdrs e 512 S = Inr disk"
  shows "length disk = img_size_bytes S"
  using assemble_shape[OF assms] by blast

lemma main_fail:
  assumes "stat_boot e = Inr 512" "stat_binary e = Inr S" "assemble shdrs e 512 S = Inl s"
  shows "main shdrs e = \<lparr>status = s, img = None\<rparr>"
  using assms by (simp add: main_def SECT_SIZE_def)

lemma main_write:
  assumes "stat_boot e = Inr 512" "stat_binary e = Inr S" "assemble shdrs e 512 S = Inr disk"
  shows "main shdrs e = write_image e disk"
  using assms by (simp add: main_def SECT_SIZE_def)

lemma main_img:
  assumes "img (main shdrs e) = Some f"
  shows "stat_boot e = Inr 512 \<and> fopen_ok e \<and> status (main shdrs e) = Return 0 \<and>
         (\<exists>S disk. stat_binary e = Inr S \<and> assemble shdrs e 512 S = Inr disk \<and>
            f = take (fwrite_room e) disk)"
  using assms
  by (auto simp: main_def write_image_def SECT_SIZE_def Let_def min_def
      split: sum.splits if_splits)

lemma assemble_inspect_fail:
  assumes "img_size_bytes S \<le> INTMAX_MAX" "alloc_ok e"
    "inspect shdrs (verb e) S (load e 512 S) = Inl s"
  shows "assemble shdrs e 512 S = Inl s"
  using assms img_size_bytes_aligned[of S] by (simp add: assemble_def)

lemma assemble_no_image:
  assumes "inspect shdrs (verb e) S (load e 512 S) = Inl s"
  shows "\<exists>s'. assemble shdrs e 512 S = Inl s'"
  using assms by (simp add: assemble_def)

lemma take_room: "take (min r (length disk)) disk = take r disk"
  by (simp add: min_def)


subsection \<open>The paths through main, and the example inputs\<close>

lemma assemble_elf64:
  assumes "elf_class (service_image e S) = Some ELFCLASS64"
    and "rd64 (service_image e S) e_entry_offset = Some x"
    and "img_size_bytes S \<le> INTMAX_MAX" and "alloc_ok e"
  shows "assemble shdrs e 512 S =
           test_mode (test e) (img_size_bytes S) (patch (load e 512 S) S (ucast x))"
proof -
  have "ELFCLASS64 \<noteq> ELFCLASS32" by (simp add: ELFCLASS64_def ELFCLASS32_def)
  then have "inspect shdrs (verb e) S (load e 512 S) = Inr (patch (load e 512 S) S (ucast x))"
    using assms(1,2) by (simp add: inspect_class drop_load elf64_eq)
  then show ?thesis
    using assms(3,4) img_size_bytes_aligned[of S] by (simp add: assemble_def)
qed


lemma binary_sectors_nat: "binary_sectors S = nat \<lceil>real S / 512\<rceil>"
  by (simp flip: binary_sectors_ceiling)

lemma binary_sectors_small: "0 < S \<Longrightarrow> S \<le> 512 \<Longrightarrow> binary_sectors S = 1"
  using binary_sectors_ge[of S] binary_sectors_lt[of S] by simp

lemma img_size_small: "0 < S \<Longrightarrow> S \<le> 512 \<Longrightarrow> img_size_bytes S = 1024"
  by (simp add: img_size_bytes_eq binary_sectors_small)

lemma length_patch_load: "length (patch (load e 512 S) S w) = img_size_bytes S"
proof -
  have "12 \<le> length (load e 512 S)" using load_ge_512[of e S] by simp
  then show ?thesis by (simp add: length_patch length_load)
qed

lemma length_boot_sector: "length boot_sector = 512"
  by (simp add: boot_sector_def)

lemma length_service64: "length service64 = 32"
  by (simp add: service64_def)

lemma elf_class_64: "elf_class (service64 @ r) = Some ELFCLASS64"
  by (simp add: elf_class_def elf_ident_def rd_bytes_def rd_def service64_def
      EI_MAG0_def EI_CLASS_def ELFMAG0_def ELFMAG1_def ELFMAG2_def ELFMAG3_def ELFCLASS64_def)

lemma entry_64: "rd64 (service64 @ r) e_entry_offset = Some 0x100200000"
  by (simp add: rd64_def rd_bytes_def service64_def e_entry_offset_def le_word_def)

lemma pad_append: "pad n (a @ b) = a @ pad (n - length a) b"
  by (simp add: pad_def)

lemma service_image_service64:
  assumes "file_binary e = service64 @ r" and "32 \<le> S"
  shows "service_image e S = service64 @ pad (512 * binary_sectors S - 32) (take (S - 32) r)"
  using assms(2)
  by (simp add: service_image_eq assms(1) length_service64 pad_append)

lemma assemble_service64:
  assumes "file_binary e = service64 @ r" and "32 \<le> S"
    and "img_size_bytes S \<le> INTMAX_MAX" and "alloc_ok e"
  shows "assemble shdrs e 512 S =
           test_mode (test e) (img_size_bytes S) (patch (load e 512 S) S 0x200000)"
proof -
  note m = service_image_service64[OF assms(1,2)]
  have c: "elf_class (service_image e S) = Some ELFCLASS64" unfolding m by (rule elf_class_64)
  have x: "rd64 (service_image e S) e_entry_offset = Some 0x100200000"
    unfolding m by (rule entry_64)
  have u: "ucast (0x100200000 :: 64 word) = (0x200000 :: 32 word)" by simp
  from assemble_elf64[OF c x assms(3,4), of shdrs] show ?thesis unfolding u .
qed

lemma main_service64:
  assumes "stat_boot e = Inr 512" and "stat_binary e = Inr S"
    and "file_binary e = service64 @ r" and "32 \<le> S"
    and "img_size_bytes S \<le> INTMAX_MAX" and "alloc_ok e" and "\<not> test e" and "fopen_ok e"
  shows "assemble shdrs e 512 S = Inr (patch (load e 512 S) S 0x200000)"
    and "main shdrs e =
           \<lparr>status = Return 0,
            img = Some (take (fwrite_room e) (patch (load e 512 S) S 0x200000))\<rparr>"
proof -
  show a: "assemble shdrs e 512 S = Inr (patch (load e 512 S) S 0x200000)"
    using assemble_service64[OF assms(3-6), of shdrs] assms(7) by (simp add: test_mode_def)
  show "main shdrs e =
           \<lparr>status = Return 0,
            img = Some (take (fwrite_room e) (patch (load e 512 S) S 0x200000))\<rparr>"
    using main_write[OF assms(1,2) a] assms(8) by (simp add: write_image_def take_room)
qed

lemma env64_run:
  "assemble shdrs env64 512 32 = Inr (patch (load env64 512 32) 32 0x200000)"
  "main shdrs env64 =
     \<lparr>status = Return 0, img = Some (patch (load env64 512 32) 32 0x200000)\<rparr>"
proof -
  have e: "stat_boot env64 = Inr 512" "stat_binary env64 = Inr 32"
    "file_binary env64 = service64 @ []" "alloc_ok env64" "\<not> test env64" "fopen_ok env64"
    by (simp_all add: env64_def env0_def test_def)
  have r: "img_size_bytes 32 \<le> INTMAX_MAX" by (simp add: img_size_small INTMAX_MAX_def)
  have l: "length (patch (load env64 512 32) 32 0x200000) = 1024"
    by (simp add: length_patch_load img_size_small)
  have w: "fwrite_room env64 = 4096" by (simp add: env64_def env0_def)
  show "assemble shdrs env64 512 32 = Inr (patch (load env64 512 32) 32 0x200000)"
    using e r by (intro main_service64(1)) simp_all
  have "main shdrs env64 =
     \<lparr>status = Return 0,
      img = Some (take (fwrite_room env64) (patch (load env64 512 32) 32 0x200000))\<rparr>"
    using e r by (intro main_service64(2)) simp_all
  then show "main shdrs env64 =
     \<lparr>status = Return 0, img = Some (patch (load env64 512 32) 32 0x200000)\<rparr>"
    using l w by simp
qed

lemma ceiling_32: "nat \<lceil>real 32 / 512\<rceil> = 1"
  using binary_sectors_nat[of 32] by (simp add: binary_sectors_small)


lemma length_elf32_header: "length elf32_header = 52"
  by (simp add: elf32_header_def)

lemma elf_class_32: "elf_class (elf32_header @ r) = Some ELFCLASS32"
  by (simp add: elf_class_def elf_ident_def rd_bytes_def rd_def elf32_header_def
      EI_MAG0_def EI_CLASS_def ELFMAG0_def ELFMAG1_def ELFMAG2_def ELFMAG3_def ELFCLASS32_def)


lemma multiboot_section_32:
  "multiboot_section sections32 S m =
     Some \<lparr>sh_name = ''.multiboot'', sh_offset = 52, sh_size = 32\<rparr>"
  by (simp add: multiboot_section_def section_header_def sections32_def)

lemma le_word_zeros: "le_word (replicate n 0) = 0"
  by (induction n) (simp_all add: le_word_def)

lemma multiboot_at_52:
  "multiboot_at (elf32_header @ [a0, a1, a2, a3, b0, b1, b2, b3, c0, c1, c2, c3] @
                 replicate 20 0 @ r) 52 =
     Some \<lparr>magic = le_word [a0, a1, a2, a3], flags = le_word [b0, b1, b2, b3],
           checksum = le_word [c0, c1, c2, c3], header_addr = 0, load_addr = 0,
           load_end_addr = 0, bss_end_addr = 0, entry_addr = 0\<rparr>"
  by (simp add: multiboot_at_def rd_bytes_def length_elf32_header le_word_zeros)

lemma service_image_84:
  assumes "file_binary e = elf32_header @ mb" and "length mb = 32"
  shows "service_image e 84 = elf32_header @ mb @ replicate 428 0"
  by (simp add: service_image_eq assms binary_sectors_small pad_def length_elf32_header)






subsection \<open>Lemmas for the single claims\<close>

lemma inspect_validation_fails:
  assumes "validation_fails shdrs S (drop SECT_SIZE disk)"
  shows "inspect shdrs v S disk = Inl Terminate \<or> inspect shdrs v S disk = Inl Assert_fail"
proof -
  let ?m = "drop SECT_SIZE disk"
  consider "not_executable ?m" | "unsupported_class ?m" | "missing_section shdrs S ?m"
    | "bad_multiboot_header shdrs S ?m"
    using assms by (auto simp: validation_fails_def)
  then show ?thesis
  proof cases
    case 1
    then show ?thesis by (simp add: inspect_not_executable)
  next
    case 2
    then show ?thesis by (simp add: inspect_unsupported_class)
  next
    case 3
    then have "elf_class ?m = Some ELFCLASS32" "multiboot_section shdrs S ?m = None"
      by (simp_all add: missing_section_def)
    then show ?thesis by (simp add: inspect_class elf32_missing)
  next
    case 4
    then obtain sh h where "elf_class ?m = Some ELFCLASS32"
      "multiboot_section shdrs S ?m = Some sh" "multiboot_at ?m (sh_offset sh) = Some h"
      "\<not> multiboot_valid h"
      by (auto simp: bad_multiboot_header_def split: option.splits)
    then show ?thesis by (simp add: inspect_class elf32_header)
  qed
qed

lemma elf_class_length: "elf_class m = Some c \<Longrightarrow> 5 \<le> length m"
  by (auto simp: elf_class_def rd_def EI_CLASS_def split: if_splits)

lemma service_image_512:
  assumes "elf_class (service_image e S) = Some c"
  shows "512 \<le> length (service_image e S)"
proof -
  from elf_class_length[OF assms] have "0 < binary_sectors S"
    by (cases "binary_sectors S") (simp_all add: length_service_image)
  then show ?thesis by (simp add: length_service_image)
qed

lemma pad_pad: "n \<le> m \<Longrightarrow> length bs \<le> n \<Longrightarrow> pad m (pad n bs) = pad m bs"
proof -
  assume a: "n \<le> m" "length bs \<le> n"
  then have "m - length bs = (n - length bs) + (m - n)" by simp
  then have "replicate (m - length bs) (0::byte) =
             replicate (n - length bs) 0 @ replicate (m - n) 0"
    by (simp only: replicate_add)
  then show ?thesis using a by (simp add: pad_def)
qed

lemma load_padded:
  "load (e\<lparr>file_boot := pad 512 (take 512 (file_boot e)),
           file_binary := pad S (take S (file_binary e))\<rparr>) 512 S = load e 512 S"
proof -
  have b: "take 512 (pad 512 (take 512 (file_boot e))) = pad 512 (take 512 (file_boot e))"
    by simp
  have "length (pad S (take S (file_binary e))) = S" by (rule length_pad) simp
  then have s: "take S (pad S (take S (file_binary e))) = pad S (take S (file_binary e))"
    by simp
  have p: "pad 512 (pad 512 (take 512 (file_boot e))) = pad 512 (take 512 (file_boot e))"
    by (rule pad_pad) simp_all
  have q: "pad (512 * binary_sectors S) (pad S (take S (file_binary e))) =
           pad (512 * binary_sectors S) (take S (file_binary e))"
    by (rule pad_pad) (simp_all add: binary_sectors_ge)
  show ?thesis by (simp add: load_eq b s p q)
qed

section \<open>The claims\<close>

text \<open>
  C1 (as amended). For a boot sector of 512 bytes and a service of size \<open>S\<close> that passes
  the inspection, the assembled buffer has \<open>512 * (1 + ceil (S / 512))\<close> bytes, a multiple
  of 512. The file written from it holds the leading bytes of the buffer that \<open>fwrite\<close>
  wrote: when the file opens, its length is the smaller of the buffer's length and the
  number of bytes the file takes, and it is the whole buffer, of that length, exactly
  when the file takes them all.
\<close>

theorem image_size:
  assumes "stat_boot e = Inr 512" and "stat_binary e = Inr S"
    and "assemble shdrs e 512 S = Inr disk"
  shows "length disk = 512 * (1 + nat \<lceil>real S / 512\<rceil>) \<and> length disk mod 512 = 0 \<and>
         (fopen_ok e \<longrightarrow>
            main shdrs e = \<lparr>status = Return 0, img = Some (take (fwrite_room e) disk)\<rparr> \<and>
            length (take (fwrite_room e) disk) = min (fwrite_room e) (length disk)) \<and>
         (fopen_ok e \<and> length disk \<le> fwrite_room e \<longrightarrow>
            main shdrs e = \<lparr>status = Return 0, img = Some disk\<rparr>)"
proof -
  have len: "length disk = 512 + 512 * binary_sectors S"
    using length_assemble[OF assms(3)] by (simp add: img_size_bytes_eq)
  have 1: "length disk = 512 * (1 + nat \<lceil>real S / 512\<rceil>)"
    unfolding len binary_sectors_nat by simp
  have 2: "length disk mod 512 = 0" unfolding len by simp
  have 3: "main shdrs e = \<lparr>status = Return 0, img = Some disk\<rparr>"
    if "fopen_ok e \<and> length disk \<le> fwrite_room e"
    using that main_write[OF assms] by (simp add: write_image_def min_def)
  have 4: "main shdrs e = \<lparr>status = Return 0, img = Some (take (fwrite_room e) disk)\<rparr> \<and>
           length (take (fwrite_room e) disk) = min (fwrite_room e) (length disk)"
    if "fopen_ok e"
    using that main_write[OF assms] by (simp add: write_image_def min_def)
  from 1 2 3 4 show ?thesis by blast
qed

theorem image_size_witness:
  "stat_boot env64 = Inr 512 \<and> stat_binary env64 = Inr 32 \<and>
   assemble no_sections env64 512 32 = Inr (patch (load env64 512 32) 32 0x200000) \<and>
   length (patch (load env64 512 32) 32 0x200000) = 1024 \<and>
   main no_sections env64 =
     \<lparr>status = Return 0, img = Some (patch (load env64 512 32) 32 0x200000)\<rparr>"
proof -
  have b: "stat_boot env64 = Inr 512" and s: "stat_binary env64 = Inr 32"
    by (simp_all add: env64_def env0_def)
  note a = env64_run(1)[of no_sections]
  from image_size[OF b s a] have "length (patch (load env64 512 32) 32 0x200000) = 1024"
    unfolding ceiling_32 by simp
  with b s a env64_run(2)[of no_sections] show ?thesis by simp
qed

text \<open>
  The claim as stated fails for the file when the device takes only 100 bytes: the
  boot sector has 512 bytes, the service passes the inspection, the buffer has 1024
  bytes, and the build ends with status 0 and a file of 100 bytes.
\<close>

theorem image_size_counterexample:
  "stat_boot env64_short = Inr 512 \<and> stat_binary env64_short = Inr 32 \<and>
   assemble no_sections env64_short 512 32 =
     Inr (patch (load env64_short 512 32) 32 0x200000) \<and>
   512 * (1 + nat \<lceil>real 32 / 512\<rceil>) = 1024 \<and>
   main no_sections env64_short =
     \<lparr>status = Return 0, img = Some (take 100 (patch (load env64_short 512 32) 32 0x200000))\<rparr> \<and>
   length (take 100 (patch (load env64_short 512 32) 32 0x200000)) = 100"
proof -
  have e: "stat_boot env64_short = Inr 512" "stat_binary env64_short = Inr 32"
    "file_binary env64_short = service64 @ []" "alloc_ok env64_short" "\<not> test env64_short"
    "fopen_ok env64_short" "fwrite_room env64_short = 100"
    by (simp_all add: env64_short_def env64_def env0_def test_def)
  have r: "img_size_bytes 32 \<le> INTMAX_MAX" by (simp add: img_size_small INTMAX_MAX_def)
  have a: "assemble no_sections env64_short 512 32 =
             Inr (patch (load env64_short 512 32) 32 0x200000)"
    using e r by (intro main_service64(1)) simp_all
  have l: "length (patch (load env64_short 512 32) 32 0x200000) = 1024"
    by (simp add: length_patch_load img_size_small)
  have c: "512 * (1 + nat \<lceil>real 32 / 512\<rceil>) = 1024" unfolding ceiling_32 by simp
  have "main no_sections env64_short =
          \<lparr>status = Return 0,
           img = Some (take (fwrite_room env64_short)
                         (patch (load env64_short 512 32) 32 0x200000))\<rparr>"
    using e r by (intro main_service64(2)) simp_all
  then have m: "main no_sections env64_short =
     \<lparr>status = Return 0, img = Some (take 100 (patch (load env64_short 512 32) 32 0x200000))\<rparr>"
    by (simp only: e(7))
  have t: "length (take 100 (patch (load env64_short 512 32) 32 0x200000)) = 100"
    using l by simp
  from e(1,2) a c m t show ?thesis by blast
qed

text \<open>
  C2 (as amended). When the image is written, the 4-byte field at offset 4 holds
  \<open>ceil (S / 512)\<close> modulo \<open>2 ^ 32\<close>: the sector count is an \<open>intmax_t\<close> stored through
  a 32-bit pointer. It is \<open>ceil (S / 512)\<close> itself as long as that is below \<open>2 ^ 32\<close>.
\<close>

theorem sector_count_field:
  assumes "img (main shdrs e) = Some f" and "stat_binary e = Inr S" and "8 \<le> length f"
  shows "map_option unat (rd32 f bootvar_binary_size) = Some (nat \<lceil>real S / 512\<rceil> mod 2 ^ 32) \<and>
         (nat \<lceil>real S / 512\<rceil> < 2 ^ 32 \<longrightarrow>
            map_option unat (rd32 f bootvar_binary_size) = Some (nat \<lceil>real S / 512\<rceil>))"
proof -
  from main_img[OF assms(1)] assms(2) obtain disk where
    a: "assemble shdrs e 512 S = Inr disk" and f: "f = take (fwrite_room e) disk" by auto
  from assemble_Inr[OF a] obtain w where
    t: "test_mode (test e) (img_size_bytes S) (patch (load e 512 S) S w) = Inr disk" by blast
  let ?p = "patch (load e 512 S) S w"
  have l: "12 \<le> length (load e 512 S)" using load_ge_512[of e S] by simp
  have "rd32 disk 4 = rd32 ?p 4"
    using t by (auto simp: test_mode_def rd32_testdata split: if_splits)
  also have "\<dots> = Some (word_of_nat (binary_sectors S))" by (rule rd32_patch_size[OF l])
  finally have d: "rd32 disk 4 = Some (word_of_nat (binary_sectors S))" .
  from assms(3) f have "8 \<le> fwrite_room e" by simp
  then have "rd32 f 4 = rd32 disk 4" unfolding f by (intro rd32_take) simp
  with d have "rd32 f 4 = Some (word_of_nat (binary_sectors S))" by simp
  moreover have "unat (word_of_nat (binary_sectors S) :: 32 word) = binary_sectors S mod 2 ^ 32"
    by (simp add: unat_of_nat)
  moreover note binary_sectors_nat[of S, symmetric]
  ultimately have 1: "map_option unat (rd32 f bootvar_binary_size) =
                        Some (nat \<lceil>real S / 512\<rceil> mod 2 ^ 32)"
    by (simp add: bootvar_binary_size_def)
  then have "map_option unat (rd32 f bootvar_binary_size) = Some (nat \<lceil>real S / 512\<rceil>)"
    if "nat \<lceil>real S / 512\<rceil> < 2 ^ 32"
    using that by (simp only: mod_less)
  with 1 show ?thesis by blast
qed

theorem sector_count_field_witness:
  "img (main no_sections env64) = Some (patch (load env64 512 32) 32 0x200000) \<and>
   stat_binary env64 = Inr 32 \<and>
   map_option unat (rd32 (patch (load env64 512 32) 32 0x200000) bootvar_binary_size) = Some 1"
proof -
  have i: "img (main no_sections env64) = Some (patch (load env64 512 32) 32 0x200000)"
    by (simp add: env64_run(2))
  have s: "stat_binary env64 = Inr 32" by (simp add: env64_def env0_def)
  have l: "8 \<le> length (patch (load env64 512 32) 32 0x200000)"
    by (simp add: length_patch_load img_size_small)
  from sector_count_field[OF i s l] i s show ?thesis unfolding ceiling_32 by simp
qed

text \<open>
  The claim as stated fails for a service of 2 TiB: it occupies \<open>2 ^ 32\<close> sectors, and
  the field holds 0.
\<close>

theorem sector_count_counterexample:
  "img (main no_sections env64_huge) =
     Some (patch (load env64_huge 512 2199023255552) 2199023255552 0x200000) \<and>
   stat_binary env64_huge = Inr 2199023255552 \<and>
   rd32 (patch (load env64_huge 512 2199023255552) 2199023255552 0x200000)
     bootvar_binary_size = Some 0 \<and>
   nat \<lceil>real 2199023255552 / 512\<rceil> = 4294967296"
proof -
  let ?S = "2199023255552 :: nat"
  have k: "binary_sectors ?S = 4294967296" by (simp add: binary_sectors_div)
  have n: "img_size_bytes ?S = 2199023256064" by (simp add: img_size_bytes_eq k)
  have e: "stat_boot env64_huge = Inr 512" "stat_binary env64_huge = Inr ?S"
    "file_binary env64_huge = service64 @ replicate 2199023255520 0" "alloc_ok env64_huge"
    "\<not> test env64_huge" "fopen_ok env64_huge" "fwrite_room env64_huge = 2199023256064"
    by (simp_all add: env64_huge_def env0_def test_def)
  have r: "img_size_bytes ?S \<le> INTMAX_MAX" by (simp add: n INTMAX_MAX_def)
  let ?p = "patch (load env64_huge 512 ?S) ?S 0x200000"
  have l: "length ?p = 2199023256064" by (simp add: length_patch_load n)
  have "main no_sections env64_huge =
          \<lparr>status = Return 0, img = Some (take (fwrite_room env64_huge) ?p)\<rparr>"
    using e r by (intro main_service64(2)) simp_all
  then have i: "img (main no_sections env64_huge) = Some ?p" using l e(7) by simp
  have "12 \<le> length (load env64_huge 512 ?S)" using load_ge_512[of env64_huge ?S] by simp
  then have "rd32 ?p 4 = Some (word_of_nat (binary_sectors ?S))" by (rule rd32_patch_size)
  then have f: "rd32 ?p bootvar_binary_size = Some 0" by (simp add: k bootvar_binary_size_def)
  have "nat \<lceil>real ?S / 512\<rceil> = 4294967296" using binary_sectors_nat[of ?S] k by simp
  with i e(2) f show ?thesis by simp
qed



text \<open>
  C4. When the loaded service fails validation (the four identification bytes are not
  the ELF magic; the class byte is neither ELFCLASS32 nor ELFCLASS64; a 32-bit binary has
  no section named .multiboot; its multiboot header violates the invariant), no image
  file is opened; and the run ends in \<open>std::terminate\<close> or a failed assertion.
\<close>

theorem validation_before_write:
  assumes "stat_boot e = Inr 512" and "stat_binary e = Inr S"
    and "validation_fails shdrs S (service_image e S)"
  shows "img (main shdrs e) = None \<and>
         (img_size_bytes S \<le> INTMAX_MAX \<longrightarrow>
            status (main shdrs e) = Terminate \<or> status (main shdrs e) = Assert_fail)"
proof -
  from assms(3) have v: "validation_fails shdrs S (drop SECT_SIZE (load e 512 S))"
    by (simp only: drop_load)
  from inspect_validation_fails[OF v, of "verb e"] obtain s where
    i: "inspect shdrs (verb e) S (load e 512 S) = Inl s" and s: "s = Terminate \<or> s = Assert_fail"
    by blast
  from assemble_no_image[OF i] obtain s' where a: "assemble shdrs e 512 S = Inl s'" ..
  have 1: "img (main shdrs e) = None" using main_fail[OF assms(1,2) a] by simp
  have 2: "status (main shdrs e) = Terminate \<or> status (main shdrs e) = Assert_fail"
    if r: "img_size_bytes S \<le> INTMAX_MAX"
  proof (cases "alloc_ok e")
    case True
    from assemble_inspect_fail[OF r True i] main_fail[OF assms(1,2)] s show ?thesis by auto
  next
    case False
    with r have "assemble shdrs e 512 S = Inl Terminate"
      using img_size_bytes_aligned[of S] by (simp add: assemble_def)
    with main_fail[OF assms(1,2)] show ?thesis by simp
  qed
  from 1 2 show ?thesis by blast
qed

theorem validation_before_write_witness:
  "stat_boot env_text = Inr 512 \<and> stat_binary env_text = Inr 5 \<and>
   validation_fails no_sections 5 (service_image env_text 5) \<and>
   img (main no_sections env_text) = None \<and>
   (status (main no_sections env_text) = Terminate \<or>
    status (main no_sections env_text) = Assert_fail)"
proof -
  have b: "stat_boot env_text = Inr 512" and s: "stat_binary env_text = Inr 5"
    by (simp_all add: env_text_def env0_def)
  have "service_image env_text 5 = [0x68, 0x65, 0x6c, 0x6c, 0x6f] @ replicate 507 0"
    by (simp add: service_image_eq binary_sectors_small pad_def env_text_def env0_def)
  then have "not_executable (service_image env_text 5)"
    by (simp add: not_executable_def elf_ident_def rd_bytes_def EI_MAG0_def ELFMAG0_def)
  then have v: "validation_fails no_sections 5 (service_image env_text 5)"
    by (simp add: validation_fails_def)
  have r: "img_size_bytes 5 \<le> INTMAX_MAX" by (simp add: img_size_small INTMAX_MAX_def)
  from validation_before_write[OF b s v] r b s v show ?thesis by blast
qed

text \<open>
  C5. For a 32-bit service whose .multiboot section lies inside the buffer, the
  inspection passes only if the header satisfies the invariant (magic 0x1BADB002, and
  magic + flags + checksum = 0 modulo \<open>2 ^ 32\<close>); if it does not, an assertion fails before
  any field is patched and no image file is opened.
\<close>

theorem multiboot_invariant:
  assumes "stat_boot e = Inr 512" and "stat_binary e = Inr S"
    and "img_size_bytes S \<le> INTMAX_MAX" and "alloc_ok e"
    and "elf_class (service_image e S) = Some ELFCLASS32"
    and "multiboot_section shdrs S (service_image e S) = Some sh"
    and "multiboot_at (service_image e S) (sh_offset sh) = Some h"
  shows "(multiboot_valid h \<longrightarrow> (\<exists>d. inspect shdrs (verb e) S (load e 512 S) = Inr d)) \<and>
         (\<not> multiboot_valid h \<longrightarrow>
            inspect shdrs (verb e) S (load e 512 S) = Inl Assert_fail \<and>
            main shdrs e = \<lparr>status = Assert_fail, img = None\<rparr>)"
proof -
  let ?m = "service_image e S"
  have i: "inspect shdrs (verb e) S (load e 512 S) =
             (if multiboot_valid h
              then (case entry ?m of None \<Rightarrow> Inl Undefined
                    | Some w \<Rightarrow> Inr (patch (load e 512 S) S w))
              else Inl Assert_fail)"
    using assms(5-7) by (simp add: inspect_class drop_load elf32_header)
  have "28 \<le> length ?m" using service_image_512[OF assms(5)] by simp
  then obtain w where w: "entry ?m = Some w"
    by (simp add: entry_def rd32_def rd_bytes_def e_entry_offset_def)
  have 1: "\<exists>d. inspect shdrs (verb e) S (load e 512 S) = Inr d" if "multiboot_valid h"
    using that i w by simp
  have 2: "inspect shdrs (verb e) S (load e 512 S) = Inl Assert_fail \<and>
           main shdrs e = \<lparr>status = Assert_fail, img = None\<rparr>" if "\<not> multiboot_valid h"
  proof -
    from that i have f: "inspect shdrs (verb e) S (load e 512 S) = Inl Assert_fail" by simp
    from main_fail[OF assms(1,2) assemble_inspect_fail[OF assms(3,4) f]] f show ?thesis by simp
  qed
  from 1 2 show ?thesis by blast
qed

theorem multiboot_invariant_witness:
  "stat_boot env32_bad = Inr 512 \<and> stat_binary env32_bad = Inr 84 \<and>
   elf_class (service_image env32_bad 84) = Some ELFCLASS32 \<and>
   multiboot_at (service_image env32_bad 84) 52 =
     Some \<lparr>magic = 0x1BADB002, flags = 0, checksum = 0, header_addr = 0, load_addr = 0,
           load_end_addr = 0, bss_end_addr = 0, entry_addr = 0\<rparr> \<and>
   main sections32 env32_bad = \<lparr>status = Assert_fail, img = None\<rparr>"
proof -
  let ?h = "\<lparr>magic = 0x1BADB002, flags = 0, checksum = 0, header_addr = 0, load_addr = 0,
           load_end_addr = 0, bss_end_addr = 0, entry_addr = 0 :: 32 word\<rparr>"
  let ?sh = "\<lparr>sh_name = ''.multiboot'', sh_offset = 52, sh_size = 32\<rparr>"
  have b: "stat_boot env32_bad = Inr 512" and s: "stat_binary env32_bad = Inr 84"
    and a: "alloc_ok env32_bad"
    by (simp_all add: env32_bad_def env0_def)
  have r: "img_size_bytes 84 \<le> INTMAX_MAX" by (simp add: img_size_small INTMAX_MAX_def)
  have m: "service_image env32_bad 84 =
             elf32_header @ [0x02, 0xb0, 0xad, 0x1b, 0, 0, 0, 0, 0, 0, 0, 0] @
             replicate 20 0 @ replicate 428 0"
    using service_image_84[of env32_bad
        "[0x02, 0xb0, 0xad, 0x1b, 0, 0, 0, 0, 0, 0, 0, 0] @ replicate 20 0"]
    by (simp add: env32_bad_def env0_def service32_bad_def)
  have c: "elf_class (service_image env32_bad 84) = Some ELFCLASS32"
    unfolding m by (rule elf_class_32)
  have sec: "multiboot_section sections32 84 (service_image env32_bad 84) = Some ?sh"
    by (rule multiboot_section_32)
  have h: "multiboot_at (service_image env32_bad 84) 52 = Some ?h"
    unfolding m multiboot_at_52 by (simp add: le_word_def)
  then have h': "multiboot_at (service_image env32_bad 84) (sh_offset ?sh) = Some ?h"
    by simp
  have "\<not> multiboot_valid ?h" by (simp add: multiboot_valid_def)
  with multiboot_invariant[OF b s r a c sec h']
  have "main sections32 env32_bad = \<lparr>status = Assert_fail, img = None\<rparr>" by blast
  with b s c h show ?thesis by blast
qed

text \<open>
  C6. When the boot sector is not exactly 512 bytes long, \<open>main\<close> returns the reserved
  code \<open>SECT_SIZE_ERR\<close>, 666, and no image file is opened. The code is not 0 and not the
  other reserved code, and it is kept apart from the codes of operating-system errors as
  far as \<open>main\<close> decides: the only other way to this status is a \<open>stat\<close> that fails with
  an \<open>errno\<close> which is itself 666.
\<close>

theorem boot_sector_size_error:
  assumes "stat_boot e = Inr n" and "n \<noteq> 512"
  shows "main shdrs e = \<lparr>status = Return SECT_SIZE_ERR, img = None\<rparr> \<and>
         SECT_SIZE_ERR = 666 \<and> SECT_SIZE_ERR \<noteq> 0 \<and> SECT_SIZE_ERR \<noteq> DISK_SIZE_ERR \<and>
         (status (main shdrs' e') = Return SECT_SIZE_ERR \<longleftrightarrow>
            (\<exists>k. stat_boot e' = Inr k \<and> k \<noteq> 512) \<or>
            stat_boot e' = Inl SECT_SIZE_ERR \<or>
            stat_boot e' = Inr 512 \<and> stat_binary e' = Inl SECT_SIZE_ERR)"
proof -
  have 1: "main shdrs e = \<lparr>status = Return SECT_SIZE_ERR, img = None\<rparr> \<and>
         SECT_SIZE_ERR = 666 \<and> SECT_SIZE_ERR \<noteq> 0 \<and> SECT_SIZE_ERR \<noteq> DISK_SIZE_ERR"
    using assms by (simp add: main_def SECT_SIZE_def SECT_SIZE_ERR_def DISK_SIZE_ERR_def)
  have w: "status (write_image e' d) \<noteq> Return SECT_SIZE_ERR" for d
    by (simp add: write_image_def SECT_SIZE_ERR_def)
  have a: "assemble shdrs' e' 512 S = Inl s \<Longrightarrow> s \<noteq> Return x" for S s x
    by (auto simp: assemble_def inspect_def elf32_def elf64_def test_mode_def Let_def
        split: if_splits sum.splits option.splits bool.splits prod.splits)
  have 2: "status (main shdrs' e') = Return SECT_SIZE_ERR \<longleftrightarrow>
            (\<exists>k. stat_boot e' = Inr k \<and> k \<noteq> 512) \<or>
            stat_boot e' = Inl SECT_SIZE_ERR \<or>
            stat_boot e' = Inr 512 \<and> stat_binary e' = Inl SECT_SIZE_ERR"
  proof (cases "stat_boot e'")
    case (Inl x)
    then show ?thesis by (simp add: main_def)
  next
    case (Inr k)
    show ?thesis
    proof (cases "k = 512")
      case False
      with Inr show ?thesis by (simp add: main_def SECT_SIZE_def)
    next
      case True
      show ?thesis
      proof (cases "stat_binary e'")
        case (Inl x)
        with Inr True show ?thesis by (simp add: main_def SECT_SIZE_def)
      next
        case S: (Inr S)
        show ?thesis
        proof (cases "assemble shdrs' e' 512 S")
          case (Inl s)
          with a[OF Inl, of SECT_SIZE_ERR] Inr True S show ?thesis
            by (simp add: main_def SECT_SIZE_def)
        next
          case d: (Inr d)
          with w[of d] Inr True S show ?thesis by (simp add: main_def SECT_SIZE_def)
        qed
      qed
    qed
  qed
  from 1 2 show ?thesis by blast
qed

theorem boot_sector_size_error_witness:
  "stat_boot env_boot511 = Inr 511 \<and>
   main no_sections env_boot511 = \<lparr>status = Return 666, img = None\<rparr> \<and>
   status (main no_sections env64) \<noteq> Return SECT_SIZE_ERR"
proof -
  have s: "stat_boot env_boot511 = Inr 511" by (simp add: env_boot511_def env0_def)
  have n: "(511::nat) \<noteq> 512" by simp
  note t = boot_sector_size_error[OF s n, of no_sections no_sections env64]
  have "stat_boot env64 = Inr 512" "stat_binary env64 = Inr 32"
    by (simp_all add: env64_def env0_def)
  then have "\<not> ((\<exists>k. stat_boot env64 = Inr k \<and> k \<noteq> 512) \<or>
            stat_boot env64 = Inl SECT_SIZE_ERR \<or>
            stat_boot env64 = Inr 512 \<and> stat_binary env64 = Inl SECT_SIZE_ERR)" by simp
  with t have "status (main no_sections env64) \<noteq> Return SECT_SIZE_ERR" by blast
  moreover from t have "main no_sections env_boot511 = \<lparr>status = Return 666, img = None\<rparr>"
    by simp
  ultimately show ?thesis using s by blast
qed

text \<open>
  C7 (as amended). The loader does not compare the number of bytes a read delivered
  with the size \<open>stat\<close> reported; the count is only printed. Bytes that were not read
  stay zero in the buffer, and the build ends exactly as it does on the same two files
  filled up with zero bytes to their reported sizes, which are then read completely. A
  partial read is never a failure by itself.
\<close>

theorem partial_read_zero_padded:
  assumes "stat_boot e = Inr 512" and "stat_binary e = Inr S"
  shows "main shdrs e =
           main shdrs (e\<lparr>file_boot := pad 512 (take 512 (file_boot e)),
                         file_binary := pad S (take S (file_binary e))\<rparr>) \<and>
         gcount (pad 512 (take 512 (file_boot e))) 512 = 512 \<and>
         gcount (pad S (take S (file_binary e))) S = S"
proof -
  let ?e = "e\<lparr>file_boot := pad 512 (take 512 (file_boot e)),
              file_binary := pad S (take S (file_binary e))\<rparr>"
  have t: "test ?e = test e" and v: "verb ?e = verb e" and a: "alloc_ok ?e = alloc_ok e"
    by (simp_all add: test_def verb_def)
  have "assemble shdrs ?e 512 S = assemble shdrs e 512 S"
    unfolding assemble_def t v a load_padded ..
  moreover have "write_image ?e d = write_image e d" for d
    by (simp add: write_image_def)
  ultimately have "main shdrs ?e = main shdrs e"
    using assms by (simp add: main_def SECT_SIZE_def split: sum.splits)
  moreover have "length (pad S (take S (file_binary e))) = S" by (rule length_pad) simp
  ultimately show ?thesis by (simp add: gcount_def)
qed

theorem partial_read_zero_padded_witness:
  "stat_boot env64_unread = Inr 512 \<and> stat_binary env64_unread = Inr 32 \<and>
   gcount (file_boot env64_unread) 512 = 0 \<and>
   main no_sections env64_unread =
     main no_sections
       (env64_unread\<lparr>file_boot := pad 512 (take 512 (file_boot env64_unread)),
                     file_binary := pad 32 (take 32 (file_binary env64_unread))\<rparr>)"
proof -
  have b: "stat_boot env64_unread = Inr 512" and s: "stat_binary env64_unread = Inr 32"
    and g: "gcount (file_boot env64_unread) 512 = 0"
    by (simp_all add: env64_unread_def env64_def env0_def gcount_def)
  from partial_read_zero_padded[OF b s, of no_sections] b s g show ?thesis by blast
qed

text \<open>
  The claim as stated fails when the boot sector cannot be read: no byte of its 512 is
  delivered, and the build succeeds.
\<close>

theorem partial_read_counterexample:
  "stat_boot env64_unread = Inr 512 \<and> gcount (file_boot env64_unread) 512 = 0 \<and>
   main no_sections env64_unread =
     \<lparr>status = Return 0, img = Some (patch (load env64_unread 512 32) 32 0x200000)\<rparr>"
proof -
  have e: "stat_boot env64_unread = Inr 512" "stat_binary env64_unread = Inr 32"
    "file_binary env64_unread = service64 @ []" "alloc_ok env64_unread"
    "\<not> test env64_unread" "fopen_ok env64_unread" "fwrite_room env64_unread = 4096"
    "gcount (file_boot env64_unread) 512 = 0"
    by (simp_all add: env64_unread_def env64_def env0_def test_def gcount_def)
  have r: "img_size_bytes 32 \<le> INTMAX_MAX" by (simp add: img_size_small INTMAX_MAX_def)
  have l: "length (patch (load env64_unread 512 32) 32 0x200000) = 1024"
    by (simp add: length_patch_load img_size_small)
  have "main no_sections env64_unread =
          \<lparr>status = Return 0,
           img = Some (take (fwrite_room env64_unread)
                         (patch (load env64_unread 512 32) 32 0x200000))\<rparr>"
    using e r by (intro main_service64(2)) simp_all
  with l e show ?thesis by simp
qed

text \<open>
  C8 (as amended). The Writer examines neither the result of opening the file nor the
  number of bytes written. When the file opens, \<open>main\<close> ends with status 0 whatever
  \<open>fwrite\<close> wrote, and the file holds that many leading bytes of the buffer.
\<close>

theorem writer_unchecked:
  assumes "stat_boot e = Inr 512" and "stat_binary e = Inr S"
    and "assemble shdrs e 512 S = Inr disk" and "fopen_ok e"
  shows "main shdrs e = \<lparr>status = Return 0, img = Some (take (fwrite_room e) disk)\<rparr>"
  using main_write[OF assms(1-3)] assms(4) by (simp add: write_image_def take_room)

theorem writer_unchecked_witness:
  "stat_boot env64 = Inr 512 \<and> stat_binary env64 = Inr 32 \<and> fopen_ok env64 \<and>
   main no_sections env64 =
     \<lparr>status = Return 0,
      img = Some (take (fwrite_room env64) (patch (load env64 512 32) 32 0x200000))\<rparr>"
proof -
  have b: "stat_boot env64 = Inr 512" and s: "stat_binary env64 = Inr 32"
    and f: "fopen_ok env64"
    by (simp_all add: env64_def env0_def)
  from writer_unchecked[OF b s env64_run(1)[of no_sections] f] b s f show ?thesis by simp
qed

text \<open>
  The claim as stated fails when the device takes no byte: the buffer has 1024 bytes,
  the file is left empty, and the status is 0.
\<close>

theorem short_write_counterexample:
  "assemble no_sections env64_full 512 32 =
     Inr (patch (load env64_full 512 32) 32 0x200000) \<and>
   length (patch (load env64_full 512 32) 32 0x200000) = 1024 \<and>
   main no_sections env64_full = \<lparr>status = Return 0, img = Some []\<rparr>"
proof -
  have e: "stat_boot env64_full = Inr 512" "stat_binary env64_full = Inr 32"
    "file_binary env64_full = service64 @ []" "alloc_ok env64_full" "\<not> test env64_full"
    "fopen_ok env64_full" "fwrite_room env64_full = 0"
    by (simp_all add: env64_full_def env64_def env0_def test_def)
  have r: "img_size_bytes 32 \<le> INTMAX_MAX" by (simp add: img_size_small INTMAX_MAX_def)
  have a: "assemble no_sections env64_full 512 32 =
             Inr (patch (load env64_full 512 32) 32 0x200000)"
    using e r by (intro main_service64(1)) simp_all
  have l: "length (patch (load env64_full 512 32) 32 0x200000) = 1024"
    by (simp add: length_patch_load img_size_small)
  have "main no_sections env64_full =
          \<lparr>status = Return 0,
           img = Some (take (fwrite_room env64_full) (patch (load env64_full 512 32) 32 0x200000))\<rparr>"
    using e r by (intro main_service64(2)) simp_all
  with a l e(7) show ?thesis by simp
qed

text \<open>
  C9 (as amended). In the image file, every byte of the first sector outside the two
  patched fields (offsets 0 to 3 and 12 to 511) is the byte the read of the boot-sector
  file delivered at the same offset, and zero where the read delivered none. The
  environment is arbitrary, so this holds in test mode as well.
\<close>

theorem boot_sector_frame:
  assumes "img (main shdrs e) = Some f" and "i < 4 \<or> 12 \<le> i" and "i < 512"
    and "i < length f"
  shows "(i < length (file_boot e) \<longrightarrow> f ! i = file_boot e ! i) \<and>
         (length (file_boot e) \<le> i \<longrightarrow> f ! i = 0)"
proof -
  from main_img[OF assms(1)] obtain S disk where
    a: "assemble shdrs e 512 S = Inr disk" and f: "f = take (fwrite_room e) disk" by auto
  from assemble_shape[OF a] obtain w where
    t: "take 512 disk = take 512 (patch (load e 512 S) S w)" by blast
  have l: "12 \<le> length (load e 512 S)" and l': "i < length (load e 512 S)"
    using load_ge_512[of e S] assms(3) by simp_all
  have "f ! i = disk ! i" using assms(4) unfolding f by simp
  also have "\<dots> = take 512 disk ! i" using assms(3) by simp
  also have "\<dots> = patch (load e 512 S) S w ! i" unfolding t using assms(3) by simp
  also have "\<dots> = load e 512 S ! i" by (rule nth_patch[OF l assms(2) l'])
  also have "\<dots> = take 512 (load e 512 S) ! i" using assms(3) by simp
  also have "\<dots> = pad 512 (take 512 (file_boot e)) ! i" by (simp only: boot_sector_loaded)
  finally have p: "f ! i = pad 512 (take 512 (file_boot e)) ! i" .
  have 1: "f ! i = file_boot e ! i" if "i < length (file_boot e)"
  proof -
    have "pad 512 (take 512 (file_boot e)) ! i = take 512 (file_boot e) ! i"
      using assms(3) that by (intro nth_pad) simp
    also have "\<dots> = file_boot e ! i" using assms(3) by simp
    finally show ?thesis using p by simp
  qed
  have 2: "f ! i = 0" if "length (file_boot e) \<le> i"
  proof -
    have "pad 512 (take 512 (file_boot e)) ! i = 0"
      using assms(3) that by (intro nth_pad_zero) simp_all
    with p show ?thesis by simp
  qed
  from 1 2 show ?thesis by blast
qed

theorem boot_sector_frame_witness:
  "img (main no_sections env64_test) =
     Some (testdata 0 512 (patch (load env64_test 512 32) 32 0x200000)) \<and>
   test env64_test \<and>
   testdata 0 512 (patch (load env64_test 512 32) 32 0x200000) ! 510 = 0x55"
proof -
  let ?f = "testdata 0 512 (patch (load env64_test 512 32) 32 0x200000)"
  have e: "stat_boot env64_test = Inr 512" "stat_binary env64_test = Inr 32"
    "file_binary env64_test = service64 @ []" "alloc_ok env64_test" "test env64_test"
    "fopen_ok env64_test" "fwrite_room env64_test = 4096" "file_boot env64_test = boot_sector"
    by (simp_all add: env64_test_def env64_def env0_def test_def)
  have r: "img_size_bytes 32 \<le> INTMAX_MAX" by (simp add: img_size_small INTMAX_MAX_def)
  have "assemble no_sections env64_test 512 32 =
          test_mode (test env64_test) (img_size_bytes 32) (patch (load env64_test 512 32) 32 0x200000)"
    using e r by (intro assemble_service64) simp_all
  then have a: "assemble no_sections env64_test 512 32 = Inr ?f"
    using e(5) by (simp add: test_mode_def img_size_small INT_MAX_def)
  have l: "length ?f = 1024" by (simp add: length_patch_load img_size_small)
  have "main no_sections env64_test = write_image env64_test ?f"
    by (rule main_write[OF e(1,2) a])
  then have i: "img (main no_sections env64_test) = Some ?f"
    using e(6,7) l by (simp add: write_image_def)
  have n: "510 < length (file_boot env64_test)" by (simp add: e(8) length_boot_sector)
  have "(510 < length (file_boot env64_test) \<longrightarrow> ?f ! 510 = file_boot env64_test ! 510) \<and>
        (length (file_boot env64_test) \<le> 510 \<longrightarrow> ?f ! 510 = 0)"
    by (rule boot_sector_frame[OF i]) (simp_all add: length_patch_load img_size_small)
  with n have "?f ! 510 = file_boot env64_test ! 510" by blast
  also have "\<dots> = 0x55" by (simp add: e(8) boot_sector_def nth_append)
  finally show ?thesis using i e(5) by simp
qed

text \<open>
  The claim as stated fails when the boot sector, a file of 512 bytes whose first byte
  is 0x90, cannot be read: the build succeeds, and the first byte of the image is 0.
\<close>

theorem boot_sector_frame_counterexample:
  "stat_boot env64_unread = Inr 512 \<and> gcount (file_boot env64_unread) 512 = 0 \<and>
   file_boot env64 = boot_sector \<and> boot_sector ! 0 = 0x90 \<and>
   main no_sections env64_unread =
     \<lparr>status = Return 0, img = Some (patch (load env64_unread 512 32) 32 0x200000)\<rparr> \<and>
   length (patch (load env64_unread 512 32) 32 0x200000) = 1024 \<and>
   patch (load env64_unread 512 32) 32 0x200000 ! 0 = 0"
proof -
  let ?p = "patch (load env64_unread 512 32) 32 0x200000"
  have e: "stat_boot env64_unread = Inr 512" "stat_binary env64_unread = Inr 32"
    "file_binary env64_unread = service64 @ []" "alloc_ok env64_unread"
    "\<not> test env64_unread" "fopen_ok env64_unread" "fwrite_room env64_unread = 4096"
    "gcount (file_boot env64_unread) 512 = 0" "file_boot env64_unread = []"
    by (simp_all add: env64_unread_def env64_def env0_def test_def gcount_def)
  have b: "file_boot env64 = boot_sector" "boot_sector ! 0 = 0x90"
    by (simp_all add: env64_def env0_def boot_sector_def nth_append)
  have r: "img_size_bytes 32 \<le> INTMAX_MAX" by (simp add: img_size_small INTMAX_MAX_def)
  have l: "length ?p = 1024" by (simp add: length_patch_load img_size_small)
  have "main no_sections env64_unread =
          \<lparr>status = Return 0, img = Some (take (fwrite_room env64_unread) ?p)\<rparr>"
    using e r by (intro main_service64(2)) simp_all
  then have m: "main no_sections env64_unread = \<lparr>status = Return 0, img = Some ?p\<rparr>"
    using l e(7) by simp
  have l12: "12 \<le> length (load env64_unread 512 32)"
    using load_ge_512[of env64_unread 32] by simp
  have l0: "0 < length (load env64_unread 512 32)" using l12 by linarith
  have "?p ! 0 = load env64_unread 512 32 ! 0"
    by (rule nth_patch[OF l12 _ l0]) simp
  also have "\<dots> = take 512 (load env64_unread 512 32) ! 0" by simp
  also have "\<dots> = pad 512 (take 512 (file_boot env64_unread)) ! 0"
    by (simp only: boot_sector_loaded)
  also have "\<dots> = 0" by (rule nth_pad_zero) (simp_all add: e(9))
  finally have z: "?p ! 0 = 0" .
  from e(1,8) b m l z show ?thesis by blast
qed

text \<open>
  C10. For an empty service the buffer has 512 bytes, so the offsets 512 to 516, where
  the identification and class bytes are read, lie outside it: the inspection is
  undefined, not a rejection as "not executable". For a service of at least one byte
  these offsets are inside the buffer, and every byte behind the bytes read from the
  service is zero.
\<close>

theorem empty_service_out_of_bounds:
  "(length (load e 512 0) = 512 \<and> (\<forall>i\<in>{512..516}. rd (load e 512 0) i = None) \<and>
    \<not> not_executable (service_image e 0) \<and>
    inspect shdrs v 0 (load e 512 0) = Inl Undefined \<and>
    (stat_boot e = Inr 512 \<and> stat_binary e = Inr 0 \<and> alloc_ok e \<longrightarrow>
       main shdrs e = \<lparr>status = Undefined, img = None\<rparr>)) \<and>
   (0 < S \<longrightarrow>
      (\<forall>i\<in>{512..516}. rd (load e 512 S) i \<noteq> None) \<and>
      (\<forall>i. gcount (file_binary e) S \<le> i \<and> i < length (service_image e S) \<longrightarrow>
           rd (load e 512 S) (512 + i) = Some 0))"
proof -
  have len0: "length (load e 512 0) = 512"
    by (simp add: length_load img_size_bytes_eq binary_sectors_0)
  then have rd0: "\<forall>i\<in>{512..516}. rd (load e 512 0) i = None" by (simp add: rd_def)
  have m0: "service_image e 0 = []"
    using length_service_image[of e 0] by (simp add: binary_sectors_0)
  have ne: "\<not> not_executable (service_image e 0)"
    by (simp add: m0 not_executable_def elf_ident_def rd_bytes_def)
  have i0: "inspect shdrs v' 0 (load e 512 0) = Inl Undefined" for v'
    by (simp add: inspect_def drop_load m0 magic_check_empty)
  have main0: "main shdrs e = \<lparr>status = Undefined, img = None\<rparr>"
    if "stat_boot e = Inr 512 \<and> stat_binary e = Inr 0 \<and> alloc_ok e"
  proof -
    have "img_size_bytes 0 \<le> INTMAX_MAX"
      by (simp add: img_size_bytes_eq binary_sectors_0 INTMAX_MAX_def)
    from assemble_inspect_fail[OF this _ i0[of "verb e"]] that
    have "assemble shdrs e 512 0 = Inl Undefined" by simp
    with that main_fail show ?thesis by blast
  qed
  have pos: "(\<forall>i\<in>{512..516}. rd (load e 512 S) i \<noteq> None) \<and>
      (\<forall>i. gcount (file_binary e) S \<le> i \<and> i < length (service_image e S) \<longrightarrow>
           rd (load e 512 S) (512 + i) = Some 0)" if S: "0 < S"
  proof -
    from binary_sectors_pos[OF S] have "1024 \<le> length (load e 512 S)"
      by (simp add: length_load img_size_bytes_eq)
    then have a: "\<forall>i\<in>{512..516}. rd (load e 512 S) i \<noteq> None" by (simp add: rd_def)
    have b: "rd (load e 512 S) (512 + i) = Some 0"
      if "gcount (file_binary e) S \<le> i \<and> i < length (service_image e S)" for i
    proof -
      from that have i: "length (take S (file_binary e)) \<le> i" "i < 512 * binary_sectors S"
        by (simp_all add: gcount_def length_service_image)
      have "load e 512 S ! (512 + i) = service_image e S ! i"
        by (simp add: load_split nth_append)
      also have "\<dots> = 0" unfolding service_image_eq using i by (rule nth_pad_zero)
      finally show ?thesis using i(2) by (simp add: rd_def length_load img_size_bytes_eq)
    qed
    from a b show ?thesis by blast
  qed
  from len0 rd0 ne i0 main0 pos show ?thesis by blast
qed

theorem empty_service_out_of_bounds_witness:
  "length (load env0 512 0) = 512 \<and> rd (load env0 512 0) 512 = None \<and>
   main no_sections env0 = \<lparr>status = Undefined, img = None\<rparr> \<and>
   rd (load env64 512 32) 516 \<noteq> None \<and> rd (load env64 512 32) (512 + 32) = Some 0"
proof -
  note t0 = empty_service_out_of_bounds[of env0 no_sections False 32]
  note t1 = empty_service_out_of_bounds[of env64 no_sections False 32]
  have e: "stat_boot env0 = Inr 512 \<and> stat_binary env0 = Inr 0 \<and> alloc_ok env0"
    by (simp add: env0_def)
  have g: "gcount (file_binary env64) 32 \<le> 32 \<and> 32 < length (service_image env64 32)"
    by (simp add: gcount_def length_service_image binary_sectors_small)
  from t0 e have "length (load env0 512 0) = 512" "rd (load env0 512 0) 512 = None"
    "main no_sections env0 = \<lparr>status = Undefined, img = None\<rparr>" by simp_all
  moreover have pos: "0 < (32::nat)" by simp
  from t1 pos have A: "\<forall>i\<in>{512..516}. rd (load env64 512 32) i \<noteq> None"
    and B: "\<forall>i. gcount (file_binary env64) 32 \<le> i \<and> i < length (service_image env64 32) \<longrightarrow>
           rd (load env64 512 32) (512 + i) = Some 0" by blast+
  from A have "rd (load env64 512 32) 516 \<noteq> None" by simp
  moreover from B g have "rd (load env64 512 32) (512 + 32) = Some 0" by blast
  ultimately show ?thesis by blast
qed

end
